theory Spec2Isabelle
  imports Complex_Main "HOL-Library.Multiset"
begin

section \<open>JavaScript strings\<close>

text \<open>
  A JavaScript string is modelled as a \<^typ>\<open>string\<close>, one \<^typ>\<open>char\<close> for each code unit;
  a \<^typ>\<open>char\<close> has eight bits, so the model covers the text whose code units are below
  256. \<open>indexOf\<close> and \<open>lastIndexOf\<close> return an integer, \<open>-1\<close> when the character
  does not occur, as the built-in methods do. A JavaScript number that the program uses
  as a count, an index or an HTTP status is an \<^typ>\<open>int\<close> or a \<^typ>\<open>nat\<close>.
\<close>

fun indexOf :: "string \<Rightarrow> char \<Rightarrow> int" where
  "indexOf [] c = -1"
| "indexOf (x # xs) c =
     (if x = c then 0 else (let r = indexOf xs c in if r = -1 then -1 else r + 1))"

fun lastIndexOf :: "string \<Rightarrow> char \<Rightarrow> int" where
  "lastIndexOf [] c = -1"
| "lastIndexOf (x # xs) c =
     (let r = lastIndexOf xs c in if r \<noteq> -1 then r + 1 else if x = c then 0 else -1)"

definition substring :: "string \<Rightarrow> int \<Rightarrow> int \<Rightarrow> string" where
  \<comment> \<open>\<open>String.prototype.substring\<close>: both indices are clamped to the string, and swapped
      when the first is the larger.\<close>
  "substring s a b =
     (let n = int (length s);
          a' = min (max a 0) n;
          b' = min (max b 0) n;
          lo = min a' b';
          hi = max a' b'
      in take (nat (hi - lo)) (drop (nat lo) s))"

fun startsWith :: "string \<Rightarrow> string \<Rightarrow> bool" where
  "startsWith s [] = True"
| "startsWith [] (p # ps) = False"
| "startsWith (c # cs) (p # ps) = (c = p \<and> startsWith cs ps)"

definition endsWith :: "string \<Rightarrow> string \<Rightarrow> bool" where
  "endsWith s p = startsWith (rev s) (rev p)"

fun includes_str :: "string \<Rightarrow> string \<Rightarrow> bool" where
  \<comment> \<open>\<open>String.prototype.includes\<close>\<close>
  "includes_str [] p = (p = [])"
| "includes_str (c # cs) p = (startsWith (c # cs) p \<or> includes_str cs p)"

section \<open>extractJson\<close>

definition extractJson :: "string \<Rightarrow> string" where
  "extractJson text =
     (let firstBracket = indexOf text CHR ''{'';
          firstSquare = indexOf text CHR ''[''
      in if firstBracket = -1 \<and> firstSquare = -1 then ''''
         else
           (let startIndex =
                  (if firstBracket = -1 then firstSquare
                   else if firstSquare = -1 then firstBracket
                   else min firstBracket firstSquare);
                lastBracket = lastIndexOf text CHR ''}'';
                lastSquare = lastIndexOf text CHR '']'';
                endIndex = max lastBracket lastSquare
            in if startIndex = -1 \<or> endIndex = -1 \<or> endIndex < startIndex then ''''
               else substring text startIndex (endIndex + 1)))"

text \<open>The two kinds of character the span is delimited by.\<close>

definition is_opening :: "char \<Rightarrow> bool" where
  "is_opening c = (c = CHR ''{'' \<or> c = CHR ''['')"

definition is_closing :: "char \<Rightarrow> bool" where
  "is_closing c = (c = CHR ''}'' \<or> c = CHR '']'')"

definition no_opening :: "string \<Rightarrow> bool" where
  "no_opening s = (list_all (\<lambda>c. \<not> is_opening c) s)"

definition no_closing :: "string \<Rightarrow> bool" where
  "no_closing s = (list_all (\<lambda>c. \<not> is_closing c) s)"

section \<open>Numbers and text\<close>

definition is_digit :: "char \<Rightarrow> bool" where
  \<comment> \<open>the regular expression class \<open>\d\<close>: the ten ASCII digits\<close>
  "is_digit c = (48 \<le> (of_char c :: nat) \<and> (of_char c :: nat) \<le> 57)"

fun bit_length :: "nat \<Rightarrow> nat" where
  \<comment> \<open>the number of binary digits of a natural number\<close>
  "bit_length n = (if n = 0 then 0 else Suc (bit_length (n div 2)))"

declare bit_length.simps [simp del]

definition nearest_double :: "nat \<Rightarrow> nat" where
  \<comment> \<open>The Number value for a natural number: the number itself below \<open>2^53\<close>; beyond,
      the nearest number with 53 significant binary digits, the even one of two equally
      near. From \<open>2^1024\<close> on the Number value is Infinity, which no integer stands
      for: there the function still gives the rounded integer.\<close>
  "nearest_double n =
     (if n < 2 ^ 53 then n
      else
        (let e = bit_length n - 53;
             q = n div 2 ^ e;
             r = n mod 2 ^ e;
             half = 2 ^ (e - 1)
         in (if r > half \<or> (r = half \<and> odd q) then q + 1 else q) * 2 ^ e))"

definition parseInt :: "string \<Rightarrow> int" where
  \<comment> \<open>\<open>parseInt(s, 10)\<close> on a string that starts with a digit (the call site passes the
      digits captured by \<open>(\d+)\<close>): the Number value for the integer its leading decimal
      digits write. With more than 20 significant digits the language lets an engine
      replace the digits after the 20th by zeros first; the model does not.\<close>
  "parseInt s =
     int (nearest_double (foldl (\<lambda>n c. 10 * n + (of_char c - 48)) 0 (takeWhile is_digit s)))"

fun match_status :: "string \<Rightarrow> string option" where
  \<comment> \<open>\<open>message.match(/status (\d+)/)\<close>: the leftmost place where \<open>status\<close> and a space
      are followed by a digit; the capture group is the longest run of digits there.\<close>
  "match_status [] = None"
| "match_status (c # cs) =
     (if startsWith (c # cs) ''status '' \<and> (case drop 7 (c # cs) of [] \<Rightarrow> False | d # _ \<Rightarrow> is_digit d)
      then Some (takeWhile is_digit (drop 7 (c # cs)))
      else match_status cs)"

fun number_text :: "nat \<Rightarrow> string" where
  \<comment> \<open>a non-negative integer inside a template string\<close>
  "number_text n =
     (if n < 10 then [char_of (48 + n)] else number_text (n div 10) @ [char_of (48 + n mod 10)])"

declare number_text.simps [simp del]

section \<open>Fetch transport\<close>

text \<open>
  One attempt of \<open>fetchWithProxy\<close> asks the relay for the page. The relay is outside the
  program: it answers with a body, with a status that is not 2xx, or the request fails
  (network error, the 30 seconds deadline, a URL that cannot be decoded). A transport gives
  the answer to the attempt of a given index for a given URL.
\<close>

datatype response = Body string | NotOk nat | Rejected string

type_synonym transport = "string \<Rightarrow> nat \<Rightarrow> response"

definition attempt :: "transport \<Rightarrow> string \<Rightarrow> nat \<Rightarrow> string + string" where
  \<comment> \<open>the \<open>try\<close> block of one iteration: the text, or the message of what was thrown\<close>
  "attempt tr url i =
     (case tr url i of
        Body text \<Rightarrow> Inr text
      | NotOk st \<Rightarrow> Inl (''Proxy request failed with status '' @ number_text st @ '' for '' @ url)
      | Rejected message \<Rightarrow> Inl message)"

definition final_attempt_error :: "string \<Rightarrow> nat \<Rightarrow> string" where
  "final_attempt_error url retries =
     ''Failed to fetch content for '' @ url @ '' after '' @ number_text retries @
     '' attempts. The site might be blocking the CORS proxy, or the proxy service may be temporarily unavailable. Please try again later.''"

function fetch_loop :: "transport \<Rightarrow> string \<Rightarrow> nat \<Rightarrow> nat \<Rightarrow> string + string" where
  "fetch_loop tr url retries i =
     (if i < retries then
        (case attempt tr url i of
           Inr text \<Rightarrow> Inr text
         | Inl message \<Rightarrow>
             if i = retries - 1 then Inl (final_attempt_error url retries)
             else fetch_loop tr url retries (i + 1))
      else Inl (''Failed to fetch content for '' @ url @ ''.''))"
  by pat_completeness auto
termination
  by (relation "measure (\<lambda>(tr, url, retries, i). retries - i)") auto

declare fetch_loop.simps [simp del]

definition fetchWithProxy :: "transport \<Rightarrow> string \<Rightarrow> string + string" where
  \<comment> \<open>every caller leaves \<open>retries\<close> at its default, 3; \<open>Inl\<close> is the message of the error thrown\<close>
  "fetchWithProxy tr url = fetch_loop tr url 3 0"

section \<open>Data model\<close>

record MetaTag =
  meta_name :: "string option"
  meta_property :: "string option"
  meta_content :: string

record Link =
  link_url :: string
  anchor :: string

record CrawledPage =
  url :: string
  status :: int
  title :: string
  description :: string
  h1 :: string
  contentPreview :: string
  internalLinks :: int
  externalLinks :: int
  metaTags :: "MetaTag list"
  internalLinkUrls :: "Link list option"
  externalLinkUrls :: "Link list option"

record CrawlSummary =
  totalPages :: nat
  healthyPages :: nat
  redirects :: nat
  clientErrors :: nat
  serverErrors :: nat

record SitemapEntry =
  loc :: string
  lastmod :: string
  changefreq :: string
  priority :: real

datatype rule_type = Allow | Disallow

record RobotsTxtRule =
  userAgent :: string
  rule_kind :: rule_type
  path :: string

record RobotsTxtAnalysis =
  rules :: "RobotsTxtRule list"
  sitemaps :: "string list"

record AdsTxtRecord =
  domain :: string
  publisherId :: string
  relationship :: string
  tagId :: "string option"

record AdsTxtAnalysis =
  records :: "AdsTxtRecord list"
  malformedLines :: "string list"

datatype provider = gemini | openai | openrouter

record AIAgent =
  agent_id :: "nat option"
  user_id :: string
  agent_name :: string
  provider :: provider
  model :: string
  system_prompt :: string
  is_default :: "bool option"

definition provider_text :: "provider \<Rightarrow> string" where
  "provider_text p = (case p of gemini \<Rightarrow> ''gemini'' | openai \<Rightarrow> ''openai'' | openrouter \<Rightarrow> ''openrouter'')"

section \<open>The model backend\<close>

text \<open>
  The language model, the HTTP call that reaches it and \<open>JSON.parse\<close> are outside the
  program. A request is what the prompt is built from; the fixed text of the prompt is
  left out.
\<close>

datatype request =
    AnalyzePages "(string \<times> string) list"
  | ParseSitemap string
  | ParseRobots string
  | ParseAds string

text \<open>
  The reply of the chat completions endpoint, as \<open>fetch\<close> and \<open>response.json()\<close> give it:
  \<^item> \<open>ChatRejected m\<close>: the call threw, message \<open>m\<close>;
  \<^item> \<open>ChatNotOk r\<close>: \<open>response.ok\<close> is false; \<open>r\<close> is the text of
    \<open>errorData.error.message\<close> (\<open>Inr\<close>), or the message of the error thrown reading it;
  \<^item> \<open>ChatOk r\<close>: \<open>response.ok\<close> is true; \<open>r\<close> is \<open>result.choices[0].message.content\<close>
    (\<open>Inr\<close>), or the message of the error thrown reading it or searching it.
\<close>

datatype chat_reply =
    ChatRejected string
  | ChatNotOk "string + string"
  | ChatOk "string + string"

text \<open>
  What \<open>JSON.parse\<close> returns, as far as the program looks into it: an array, an object with
  its keys in order, or another value (\<open>null\<close>, a number, a string, a boolean). The
  elements of an array are read at the type \<open>'a\<close> the program gives them.
\<close>

datatype 'a parsed = PArray "'a list" | PObject "(string \<times> 'a parsed) list" | PPrimitive

text \<open>
  An element of the array the model returns for a batch of pages. The program reads eleven
  fields of it with \<open>item?.field ?? default\<close>: a field is \<open>None\<close> when the element does
  not have it, when it is \<open>null\<close>, or when the element is not an object at all. A field
  that is there has the type \<open>CrawledPage\<close> declares for it.
\<close>

record PageItem =
  item_url :: "string option"
  item_status :: "int option"
  item_title :: "string option"
  item_description :: "string option"
  item_h1 :: "string option"
  item_contentPreview :: "string option"
  item_internalLinks :: "int option"
  item_externalLinks :: "int option"
  item_metaTags :: "MetaTag list option"
  item_internalLinkUrls :: "Link list option"
  item_externalLinkUrls :: "Link list option"

record SitemapItem =
  item_loc :: "string option"
  item_lastmod :: "string option"
  item_changefreq :: "string option"
  item_priority :: "real option"

text \<open>
  \<open>generateContent\<close> is \<open>new GoogleGenAI\<close>, \<open>ai.models.generateContent\<close> and
  \<open>response.text\<close>: it throws (\<open>Inl\<close>, with the message of the error) or gives the text,
  which the SDK may leave undefined (\<open>None\<close>). The four
  \<open>parse\<close> functions are \<open>JSON.parse\<close> at the four places that call it: \<open>Inl\<close> is the
  message of its SyntaxError. For robots.txt and ads.txt the program only tests that the
  value is an object with the two keys of the analysis: \<open>Some a\<close> is such an object, read
  as the analysis \<open>a\<close>, and \<open>None\<close> is any other value.
\<close>

record backend =
  generateContent :: "string \<Rightarrow> AIAgent \<Rightarrow> request \<Rightarrow> string + string option"
  chatCompletions :: "string \<Rightarrow> AIAgent \<Rightarrow> request \<Rightarrow> chat_reply"
  parsePages :: "string \<Rightarrow> string + PageItem parsed"
  parseSitemap :: "string \<Rightarrow> string + SitemapItem parsed"
  parseRobots :: "string \<Rightarrow> string + RobotsTxtAnalysis option"
  parseAds :: "string \<Rightarrow> string + AdsTxtAnalysis option"

definition undefined_text_error :: string where
  \<comment> \<open>the TypeError of \<open>extractJson(undefined)\<close>, in V8's words\<close>
  "undefined_text_error = ''Cannot read properties of undefined (reading 'indexOf')''"

definition unwrap_single :: "'a parsed \<Rightarrow> 'a parsed" where
  \<comment> \<open>an object with exactly one key whose value is an array is replaced by that array\<close>
  "unwrap_single p = (case p of PObject [(k, PArray xs)] \<Rightarrow> PArray xs | _ \<Rightarrow> p)"

definition as_array :: "'a parsed \<Rightarrow> string + 'a list" where
  "as_array p = (case p of PArray xs \<Rightarrow> Inr xs | _ \<Rightarrow> Inl ''Parsed data is not an array.'')"

definition api_name :: "provider \<Rightarrow> string" where
  "api_name p = (if p = openrouter then ''OpenRouter'' else ''OpenAI'')"

definition isRateLimitError :: "string \<Rightarrow> bool" where
  "isRateLimitError message =
     (includes_str message ''429'' \<or> includes_str message ''RESOURCE_EXHAUSTED'' \<or>
      includes_str message ''rate limit'')"

section \<open>analyzePageBatch\<close>

record FetchedPage =
  page_url :: string
  html :: "string option"
  page_status :: int
  fetch_error :: "string option"

definition fetchPage :: "transport \<Rightarrow> string \<Rightarrow> FetchedPage" where
  "fetchPage tr u =
     (case fetchWithProxy tr u of
        Inr text \<Rightarrow> \<lparr>page_url = u, html = Some text, page_status = 200, fetch_error = None\<rparr>
      | Inl message \<Rightarrow>
          \<lparr>page_url = u, html = None,
           page_status = (case match_status message of Some ds \<Rightarrow> parseInt ds | None \<Rightarrow> 500),
           fetch_error = Some message\<rparr>)"

text \<open>
  The URLs of a batch are fetched concurrently, each by its own call. The call for the
  URL at position \<open>k\<close> talks to the transport \<open>net k\<close>, so two occurrences of one URL may
  be answered differently.
\<close>

fun fetchPages :: "(nat \<Rightarrow> transport) \<Rightarrow> nat \<Rightarrow> string list \<Rightarrow> FetchedPage list" where
  "fetchPages net k [] = []"
| "fetchPages net k (u # us) = fetchPage (net k) u # fetchPages net (Suc k) us"

definition fetchFailedPage :: "FetchedPage \<Rightarrow> CrawledPage" where
  "fetchFailedPage page =
     \<lparr>url = page_url page, status = page_status page, title = ''Fetch Failed'',
      description = (case fetch_error page of None \<Rightarrow> ''N/A'' | Some e \<Rightarrow> if e = [] then ''N/A'' else e),
      h1 = ''N/A'', contentPreview = ''N/A'', internalLinks = 0, externalLinks = 0,
      metaTags = [], internalLinkUrls = None, externalLinkUrls = None\<rparr>"

definition analysisFailedPage :: "string \<Rightarrow> FetchedPage \<Rightarrow> CrawledPage" where
  "analysisFailedPage errorMessage page =
     \<lparr>url = page_url page, status = 500, title = ''Analysis Failed'', description = errorMessage,
      h1 = ''N/A'', contentPreview = ''N/A'', internalLinks = 0, externalLinks = 0,
      metaTags = [], internalLinkUrls = None, externalLinkUrls = None\<rparr>"

definition or_default :: "'a option \<Rightarrow> 'a \<Rightarrow> 'a" where
  \<comment> \<open>\<open>item?.field ?? d\<close>\<close>
  "or_default v d = (case v of None \<Rightarrow> d | Some x \<Rightarrow> x)"

definition aiResult :: "PageItem \<Rightarrow> CrawledPage" where
  "aiResult item =
     \<lparr>url = or_default (item_url item) ''Unknown URL'',
      status = or_default (item_status item) 500,
      title = or_default (item_title item) ''N/A'',
      description = or_default (item_description item) ''N/A'',
      h1 = or_default (item_h1 item) ''N/A'',
      contentPreview = or_default (item_contentPreview item) ''N/A'',
      internalLinks = or_default (item_internalLinks item) 0,
      externalLinks = or_default (item_externalLinks item) 0,
      metaTags = or_default (item_metaTags item) [],
      internalLinkUrls = Some (or_default (item_internalLinkUrls item) []),
      externalLinkUrls = Some (or_default (item_externalLinkUrls item) [])\<rparr>"

definition requestPageAnalysis ::
  "backend \<Rightarrow> AIAgent \<Rightarrow> string \<Rightarrow> FetchedPage list \<Rightarrow> string + PageItem list" where
  \<comment> \<open>The \<open>try\<close> block up to the test \<open>Array.isArray(parsedData)\<close>: \<open>Inl\<close> is the message of
      the error it throws. The Gemini branch first looks for a reply that starts with
      \<open>{"error"\<close>, inside a \<open>try\<close> of its own whose \<open>catch\<close> is empty: nothing it does there
      is seen outside, so it is left out.\<close>
  "requestPageAnalysis be agent apiKey validPages =
     (let validPagesForPrompt = map (\<lambda>p. (page_url p, or_default (html p) [])) validPages
      in if provider agent = gemini then
           (case generateContent be apiKey agent (AnalyzePages validPagesForPrompt) of
              Inl message \<Rightarrow> Inl message
            | Inr None \<Rightarrow> Inl undefined_text_error
            | Inr (Some responseText) \<Rightarrow>
                (let jsonText = extractJson responseText
                 in if jsonText = [] then Inl ''AI returned a response without valid JSON content.''
                    else (case parsePages be jsonText of
                            Inl message \<Rightarrow> Inl message
                          | Inr parsedData \<Rightarrow> as_array parsedData)))
         else
           (case chatCompletions be apiKey agent (AnalyzePages validPagesForPrompt) of
              ChatRejected message \<Rightarrow> Inl message
            | ChatNotOk (Inl message) \<Rightarrow> Inl message
            | ChatNotOk (Inr m) \<Rightarrow> Inl (api_name (provider agent) @ '' API Error: '' @ m)
            | ChatOk (Inl message) \<Rightarrow> Inl message
            | ChatOk (Inr content) \<Rightarrow>
                (case parsePages be (extractJson content) of
                   Inl message \<Rightarrow> Inl message
                 | Inr parsedData \<Rightarrow> as_array (unwrap_single parsedData))))"

definition analysisErrorMessage :: "string \<Rightarrow> string" where
  "analysisErrorMessage message =
     (if isRateLimitError message then ''API rate limit exceeded. Please wait a moment and try again.''
      else if message = [] then ''Could not parse AI response.'' else message)"

definition analyzePageBatch ::
  "(nat \<Rightarrow> transport) \<Rightarrow> backend \<Rightarrow> AIAgent \<Rightarrow> string \<Rightarrow> string list \<Rightarrow> string + CrawledPage list" where
  "analyzePageBatch net be agent apiKey urls =
     (if apiKey = [] then
        Inl ((if provider agent = gemini then ''Gemini'' else ''OpenAI'') @ '' API key is required.'')
      else
        (let pagesWithHtml = fetchPages net 0 urls;
             validPages = filter (\<lambda>p. html p \<noteq> None) pagesWithHtml;
             failedPages = filter (\<lambda>p. html p = None) pagesWithHtml;
             results = map fetchFailedPage failedPages
         in if length validPages = 0 then Inr results
            else
              (case requestPageAnalysis be agent apiKey validPages of
                 Inr parsedData \<Rightarrow> Inr (results @ map aiResult parsedData)
               | Inl message \<Rightarrow>
                   Inr (results @ map (analysisFailedPage (analysisErrorMessage message)) validPages))))"

section \<open>calculateCrawlSummary\<close>

definition summaryStep :: "CrawlSummary \<Rightarrow> CrawledPage \<Rightarrow> CrawlSummary" where
  "summaryStep acc0 page =
     (let acc = acc0\<lparr>totalPages := totalPages acc0 + 1\<rparr>
      in if status page \<ge> 200 \<and> status page < 300 then acc\<lparr>healthyPages := healthyPages acc + 1\<rparr>
         else if status page \<ge> 300 \<and> status page < 400 then acc\<lparr>redirects := redirects acc + 1\<rparr>
         else if status page \<ge> 400 \<and> status page < 500 then acc\<lparr>clientErrors := clientErrors acc + 1\<rparr>
         else if status page \<ge> 500 then acc\<lparr>serverErrors := serverErrors acc + 1\<rparr>
         else acc)"

definition calculateCrawlSummary :: "CrawledPage list \<Rightarrow> CrawlSummary" where
  \<comment> \<open>\<open>pages.reduce\<close> from a fresh accumulator\<close>
  "calculateCrawlSummary pages =
     foldl summaryStep
       \<lparr>totalPages = 0, healthyPages = 0, redirects = 0, clientErrors = 0, serverErrors = 0\<rparr> pages"

section \<open>Names used in the statements about analyzePageBatch\<close>

definition fetchedOk :: "(nat \<Rightarrow> transport) \<Rightarrow> string list \<Rightarrow> FetchedPage list" where
  \<comment> \<open>the pages of the batch whose fetch gave a text, in the order of the batch\<close>
  "fetchedOk net urls = filter (\<lambda>p. html p \<noteq> None) (fetchPages net 0 urls)"

definition fetchedFailed :: "(nat \<Rightarrow> transport) \<Rightarrow> string list \<Rightarrow> FetchedPage list" where
  "fetchedFailed net urls = filter (\<lambda>p. html p = None) (fetchPages net 0 urls)"



section \<open>Example environments\<close>

definition example_agent :: AIAgent where
  "example_agent =
     \<lparr>agent_id = Some 1, user_id = ''user-1'', agent_name = ''Auditor'', provider = gemini,
      model = ''gemini-2.5-flash'', system_prompt = ''You are an SEO auditor.'',
      is_default = Some True\<rparr>"

definition online :: "nat \<Rightarrow> transport" where
  \<comment> \<open>every request is answered at the first attempt\<close>
  "online k u i = Body ''<html><title>Home</title></html>''"

definition offline :: "nat \<Rightarrow> transport" where
  \<comment> \<open>every attempt fails\<close>
  "offline k u i = Rejected ''Failed to fetch''"

definition first_only :: "nat \<Rightarrow> transport" where
  \<comment> \<open>only the first URL of a batch can be fetched\<close>
  "first_only k u i = (if k = 0 then Body ''<html><title>Home</title></html>'' else NotOk 404)"

definition empty_array_backend :: backend where
  \<comment> \<open>a model that answers every request with the empty JSON array\<close>
  "empty_array_backend =
     \<lparr>generateContent = (\<lambda>apiKey agent req. Inr (Some ''Here you go: [] Thanks!'')),
      chatCompletions = (\<lambda>apiKey agent req. ChatOk (Inr ''[]'')),
      parsePages = (\<lambda>s. if s = ''[]'' then Inr (PArray []) else Inl ''Unexpected token''),
      parseSitemap = (\<lambda>s. if s = ''[]'' then Inr (PArray []) else Inl ''Unexpected token''),
      parseRobots = (\<lambda>s. Inr None),
      parseAds = (\<lambda>s. Inr None)\<rparr>"

definition rate_limited_backend :: backend where
  \<comment> \<open>a model whose every call is refused for its rate\<close>
  "rate_limited_backend =
     \<lparr>generateContent = (\<lambda>apiKey agent req. Inl ''got status: 429 Too Many Requests''),
      chatCompletions = (\<lambda>apiKey agent req. ChatNotOk (Inr ''rate limit reached'')),
      parsePages = (\<lambda>s. Inl ''Unexpected end of JSON input''),
      parseSitemap = (\<lambda>s. Inl ''Unexpected end of JSON input''),
      parseRobots = (\<lambda>s. Inl ''Unexpected end of JSON input''),
      parseAds = (\<lambda>s. Inl ''Unexpected end of JSON input'')\<rparr>"

definition informational_page :: CrawledPage where
  \<comment> \<open>a page the model reports with status 100\<close>
  "informational_page =
     \<lparr>url = ''https://example.com/'', status = 100, title = ''N/A'', description = ''N/A'',
      h1 = ''N/A'', contentPreview = ''N/A'', internalLinks = 0, externalLinks = 0,
      metaTags = [], internalLinkUrls = Some [], externalLinkUrls = Some []\<rparr>"

section \<open>The URL class\<close>

text \<open>
  \<open>new URL(input, base)\<close> is the platform's parser: it gives a URL object or throws a
  TypeError (\<open>None\<close>). The program reads four properties of the object.
\<close>

record URL =
  protocol :: string
  hostname :: string
  href :: string
  origin :: string

type_synonym url_api = "string \<Rightarrow> string option \<Rightarrow> URL option"

definition invalid_url_error :: string where
  "invalid_url_error = ''Invalid URL''"

section \<open>analyzeRobotsTxt and analyzeAdsTxt\<close>

definition fetchWellKnown :: "url_api \<Rightarrow> transport \<Rightarrow> string \<Rightarrow> string \<Rightarrow> string + string" where
  \<comment> \<open>\<open>fetchWithProxy(`${new URL(url).origin}/robots.txt`)\<close>, inside its \<open>try\<close>\<close>
  "fetchWellKnown newURL tr u file =
     (case newURL u None of
        None \<Rightarrow> Inl invalid_url_error
      | Some parsed \<Rightarrow> fetchWithProxy tr (origin parsed @ file))"

definition requestRobotsAnalysis ::
  "backend \<Rightarrow> AIAgent \<Rightarrow> string \<Rightarrow> string \<Rightarrow> string + RobotsTxtAnalysis" where
  \<comment> \<open>the second \<open>try\<close> block: \<open>Inl\<close> is the message of the error it throws\<close>
  "requestRobotsAnalysis be agent apiKey robotsTxtContent =
     (let matches = (\<lambda>parsedData. case parsedData of
            None \<Rightarrow> Inl ''Parsed data does not match the expected RobotsTxtAnalysis structure.''
          | Some analysis \<Rightarrow> Inr analysis)
      in if provider agent = gemini then
           (case generateContent be apiKey agent (ParseRobots robotsTxtContent) of
              Inl message \<Rightarrow> Inl message
            | Inr None \<Rightarrow> Inl undefined_text_error
            | Inr (Some responseText) \<Rightarrow>
                (let jsonText = extractJson responseText
                 in if jsonText = [] then Inr \<lparr>rules = [], sitemaps = []\<rparr>
                    else (case parseRobots be jsonText of
                            Inl message \<Rightarrow> Inl message
                          | Inr parsedData \<Rightarrow> matches parsedData)))
         else
           (case chatCompletions be apiKey agent (ParseRobots robotsTxtContent) of
              ChatRejected message \<Rightarrow> Inl message
            | ChatNotOk r \<Rightarrow> Inl (api_name (provider agent) @ '' request failed'')
            | ChatOk (Inl message) \<Rightarrow> Inl message
            | ChatOk (Inr chatContent) \<Rightarrow>
                (case parseRobots be chatContent of
                   Inl message \<Rightarrow> Inl message
                 | Inr parsedData \<Rightarrow> matches parsedData)))"

definition analyzeRobotsTxt ::
  "url_api \<Rightarrow> transport \<Rightarrow> backend \<Rightarrow> string \<Rightarrow> AIAgent \<Rightarrow> string \<Rightarrow> string + RobotsTxtAnalysis" where
  "analyzeRobotsTxt newURL tr be u agent apiKey =
     (if apiKey = [] then Inl (provider_text (provider agent) @ '' API key is required.'')
      else
        (case fetchWellKnown newURL tr u ''/robots.txt'' of
           Inl e \<Rightarrow> Inr \<lparr>rules = [], sitemaps = []\<rparr>
         | Inr robotsTxtContent \<Rightarrow>
             (case requestRobotsAnalysis be agent apiKey robotsTxtContent of
                Inr analysis \<Rightarrow> Inr analysis
              | Inl message \<Rightarrow>
                  if isRateLimitError message
                  then Inl ''API rate limit exceeded. Please wait a moment and try again. If the problem persists, check your API plan and billing details.''
                  else Inl (''Failed to get valid robots.txt data from the AI. Reason: '' @ message))))"

definition requestAdsAnalysis ::
  "backend \<Rightarrow> AIAgent \<Rightarrow> string \<Rightarrow> string \<Rightarrow> string + AdsTxtAnalysis" where
  "requestAdsAnalysis be agent apiKey adsTxtContent =
     (let matches = (\<lambda>parsedData. case parsedData of
            None \<Rightarrow> Inl ''Parsed data does not match the expected AdsTxtAnalysis structure.''
          | Some analysis \<Rightarrow> Inr analysis)
      in if provider agent = gemini then
           (case generateContent be apiKey agent (ParseAds adsTxtContent) of
              Inl message \<Rightarrow> Inl message
            | Inr None \<Rightarrow> Inl undefined_text_error
            | Inr (Some responseText) \<Rightarrow>
                (let jsonText = extractJson responseText
                 in if jsonText = [] then Inr \<lparr>records = [], malformedLines = []\<rparr>
                    else (case parseAds be jsonText of
                            Inl message \<Rightarrow> Inl message
                          | Inr parsedData \<Rightarrow> matches parsedData)))
         else
           (case chatCompletions be apiKey agent (ParseAds adsTxtContent) of
              ChatRejected message \<Rightarrow> Inl message
            | ChatNotOk r \<Rightarrow> Inl (api_name (provider agent) @ '' request failed'')
            | ChatOk (Inl message) \<Rightarrow> Inl message
            | ChatOk (Inr chatContent) \<Rightarrow>
                (case parseAds be chatContent of
                   Inl message \<Rightarrow> Inl message
                 | Inr parsedData \<Rightarrow> matches parsedData)))"

definition analyzeAdsTxt ::
  "url_api \<Rightarrow> transport \<Rightarrow> backend \<Rightarrow> string \<Rightarrow> AIAgent \<Rightarrow> string \<Rightarrow> string + AdsTxtAnalysis" where
  "analyzeAdsTxt newURL tr be u agent apiKey =
     (if apiKey = [] then Inl (provider_text (provider agent) @ '' API key is required.'')
      else
        (case fetchWellKnown newURL tr u ''/ads.txt'' of
           Inl e \<Rightarrow> Inr \<lparr>records = [], malformedLines = []\<rparr>
         | Inr adsTxtContent \<Rightarrow>
             (case requestAdsAnalysis be agent apiKey adsTxtContent of
                Inr analysis \<Rightarrow> Inr analysis
              | Inl message \<Rightarrow>
                  if isRateLimitError message
                  then Inl ''API rate limit exceeded. Please wait a moment and try again.''
                  else Inl (''Failed to get valid ads.txt data from the AI. Reason: '' @ message))))"

section \<open>Sitemaps\<close>

definition lower_char :: "char \<Rightarrow> char" where
  "lower_char c =
     (case map_of (zip ''ABCDEFGHIJKLMNOPQRSTUVWXYZ'' ''abcdefghijklmnopqrstuvwxyz'') c of
        None \<Rightarrow> c | Some l \<Rightarrow> l)"

definition toLowerCase :: "string \<Rightarrow> string" where
  \<comment> \<open>The letters A to Z are lowered and the other characters are kept. The program
      compares the result with \<open>sitemap:\<close>, \<open>.xml\<close> and \<open>.xml.gz\<close> only, and no
      character but an ASCII capital is lowered to a character of those.\<close>
  "toLowerCase s = map lower_char s"

definition is_space :: "char \<Rightarrow> bool" where
  \<comment> \<open>the white space and line terminators \<open>trim\<close> removes, among the characters of the model\<close>
  "is_space c = ((of_char c :: nat) \<in> {9, 10, 11, 12, 13, 32, 160})"

definition trim :: "string \<Rightarrow> string" where
  "trim s = rev (dropWhile is_space (rev (dropWhile is_space s)))"

fun split_lines :: "string \<Rightarrow> string list" where
  \<comment> \<open>\<open>s.split('\n')\<close>\<close>
  "split_lines [] = [[]]"
| "split_lines (c # cs) =
     (if c = CHR 0x0A then [] # split_lines cs
      else (case split_lines cs of [] \<Rightarrow> [[c]] | l # ls \<Rightarrow> (c # l) # ls))"

definition sitemapSeeds :: "string \<Rightarrow> string list" where
  \<comment> \<open>the sitemap URLs that the lines \<open>Sitemap: ...\<close> of robots.txt name, in order\<close>
  "sitemapSeeds robotsTxtContent =
     (let sitemapLines =
            filter (\<lambda>line. startsWith (toLowerCase line) ''sitemap:'') (split_lines robotsTxtContent)
      in concat (map (\<lambda>line.
                   let sitemapUrl = trim (drop (nat (indexOf line CHR '':'' + 1)) line)
                   in if sitemapUrl = [] then [] else [sitemapUrl]) sitemapLines))"

definition sitemapEntryOf :: "SitemapItem \<Rightarrow> SitemapEntry" where
  "sitemapEntryOf item =
     \<lparr>loc = or_default (item_loc item) [], lastmod = or_default (item_lastmod item) [],
      changefreq = or_default (item_changefreq item) [],
      priority = or_default (item_priority item) 0.5\<rparr>"

definition requestSitemapEntries ::
  "backend \<Rightarrow> AIAgent \<Rightarrow> string \<Rightarrow> string \<Rightarrow> string + SitemapEntry list" where
  \<comment> \<open>the \<open>try\<close> block of parseSitemapWithAI\<close>
  "requestSitemapEntries be agent apiKey sitemapContent =
     (let entries = (\<lambda>parsedData. case as_array parsedData of
            Inl message \<Rightarrow> Inl message
          | Inr items \<Rightarrow> Inr (filter (\<lambda>e. loc e \<noteq> []) (map sitemapEntryOf items)))
      in if provider agent = gemini then
           (case generateContent be apiKey agent (ParseSitemap sitemapContent) of
              Inl message \<Rightarrow> Inl message
            | Inr None \<Rightarrow> Inl undefined_text_error
            | Inr (Some responseText) \<Rightarrow>
                (let jsonText = extractJson responseText
                 in if jsonText = [] \<or> jsonText = ''[]'' then Inr []
                    else (case parseSitemap be jsonText of
                            Inl message \<Rightarrow> Inl message
                          | Inr parsedData \<Rightarrow> entries parsedData)))
         else
           (case chatCompletions be apiKey agent (ParseSitemap sitemapContent) of
              ChatRejected message \<Rightarrow> Inl message
            | ChatNotOk r \<Rightarrow> Inl (api_name (provider agent) @ '' request failed'')
            | ChatOk (Inl message) \<Rightarrow> Inl message
            | ChatOk (Inr chatContent) \<Rightarrow>
                (case parseSitemap be (extractJson chatContent) of
                   Inl message \<Rightarrow> Inl message
                 | Inr parsedData \<Rightarrow> entries (unwrap_single parsedData))))"

definition parseSitemapWithAI ::
  "backend \<Rightarrow> AIAgent \<Rightarrow> string \<Rightarrow> string \<Rightarrow> string + SitemapEntry list" where
  "parseSitemapWithAI be agent apiKey sitemapContent =
     (case requestSitemapEntries be agent apiKey sitemapContent of
        Inr entries \<Rightarrow> Inr entries
      | Inl message \<Rightarrow>
          if isRateLimitError message
          then Inl ''API rate limit exceeded while parsing sitemap. Please wait a moment and try again.''
          else Inl (''Failed to get valid sitemap data from the AI. Reason: '' @ message))"

text \<open>
  The state of the traversal. \<open>visitedSitemaps\<close> is a \<open>Set\<close>: the list holds its elements
  in the order they were added. \<open>fetches\<close> counts the calls of \<open>fetchWithProxy\<close> made so
  far; the next call talks to the transport of that index.
\<close>

record sitemap_state =
  queue :: "string list"
  visitedSitemaps :: "string list"
  allEntries :: "SitemapEntry list"
  fetches :: nat

definition isSitemapLoc :: "string \<Rightarrow> bool" where
  "isSitemapLoc l = (endsWith (toLowerCase l) ''.xml'' \<or> endsWith (toLowerCase l) ''.xml.gz'')"

definition addEntry :: "sitemap_state \<Rightarrow> SitemapEntry \<Rightarrow> sitemap_state" where
  \<comment> \<open>the body of \<open>for (const entry of entries)\<close>\<close>
  "addEntry st entry =
     (if isSitemapLoc (loc entry) then
        (if loc entry \<notin> set (visitedSitemaps st) then st\<lparr>queue := queue st @ [loc entry]\<rparr> else st)
      else st\<lparr>allEntries := allEntries st @ [entry]\<rparr>)"

definition processSitemap ::
  "(nat \<Rightarrow> transport) \<Rightarrow> backend \<Rightarrow> AIAgent \<Rightarrow> string \<Rightarrow> string \<Rightarrow> sitemap_state \<Rightarrow> sitemap_state" where
  \<comment> \<open>the \<open>try\<close> block of one iteration; an error of the fetch or of the parsing is only logged\<close>
  "processSitemap net be agent apiKey currentSitemapUrl st =
     (let st' = st\<lparr>fetches := fetches st + 1\<rparr>
      in case fetchWithProxy (net (fetches st)) currentSitemapUrl of
           Inl e \<Rightarrow> st'
         | Inr sitemapContent \<Rightarrow>
             (case parseSitemapWithAI be agent apiKey sitemapContent of
                Inl e \<Rightarrow> st'
              | Inr entries \<Rightarrow> foldl addEntry st' entries))"

text \<open>
  The \<open>while (queue.length > 0)\<close> loop. Nothing bounds it: each sitemap may name new
  ones. The first argument is the number of iterations the loop is given; \<open>None\<close> means
  they did not suffice.
\<close>

fun sitemapLoop ::
  "nat \<Rightarrow> (nat \<Rightarrow> transport) \<Rightarrow> backend \<Rightarrow> AIAgent \<Rightarrow> string \<Rightarrow> sitemap_state \<Rightarrow> sitemap_state option" where
  "sitemapLoop 0 net be agent apiKey st = (if queue st = [] then Some st else None)"
| "sitemapLoop (Suc n) net be agent apiKey st =
     (case queue st of
        [] \<Rightarrow> Some st
      | currentSitemapUrl # rest \<Rightarrow>
          if currentSitemapUrl \<in> set (visitedSitemaps st)
          then sitemapLoop n net be agent apiKey (st\<lparr>queue := rest\<rparr>)
          else sitemapLoop n net be agent apiKey
                 (processSitemap net be agent apiKey currentSitemapUrl
                    (st\<lparr>queue := rest, visitedSitemaps := visitedSitemaps st @ [currentSitemapUrl]\<rparr>)))"

definition sitemapStart :: "(nat \<Rightarrow> transport) \<Rightarrow> string \<Rightarrow> sitemap_state" where
  \<comment> \<open>the state before the loop, for the origin of the site\<close>
  "sitemapStart net siteOrigin =
     (let seeds = (case fetchWithProxy (net 0) (siteOrigin @ ''/robots.txt'') of
                     Inl e \<Rightarrow> []
                   | Inr robotsTxtContent \<Rightarrow> sitemapSeeds robotsTxtContent)
      in \<lparr>queue = (if length seeds = 0 then [siteOrigin @ ''/sitemap.xml''] else seeds),
          visitedSitemaps = [], allEntries = [], fetches = 1\<rparr>)"

definition sitemapTraversal ::
  "nat \<Rightarrow> url_api \<Rightarrow> (nat \<Rightarrow> transport) \<Rightarrow> backend \<Rightarrow> string \<Rightarrow> AIAgent \<Rightarrow> string
     \<Rightarrow> (string + sitemap_state) option" where
  \<comment> \<open>fetchAllUrlsFromSitemaps with the whole final state\<close>
  "sitemapTraversal fuel newURL net be u agent apiKey =
     (if apiKey = [] then Some (Inl (provider_text (provider agent) @ '' API key is required.''))
      else
        (case newURL u None of
           None \<Rightarrow> Some (Inl invalid_url_error)
         | Some parsed \<Rightarrow>
             map_option Inr (sitemapLoop fuel net be agent apiKey (sitemapStart net (origin parsed)))))"

definition fetchAllUrlsFromSitemaps ::
  "nat \<Rightarrow> url_api \<Rightarrow> (nat \<Rightarrow> transport) \<Rightarrow> backend \<Rightarrow> string \<Rightarrow> AIAgent \<Rightarrow> string
     \<Rightarrow> (string + SitemapEntry list) option" where
  "fetchAllUrlsFromSitemaps fuel newURL net be u agent apiKey =
     map_option (map_sum id allEntries) (sitemapTraversal fuel newURL net be u agent apiKey)"

section \<open>discoverUrlsToCrawl\<close>

text \<open>
  The browser gives the program two things: the URL parser, and the \<open>href\<close> attributes of
  the \<open>a[href]\<close> elements of a document, in document order (\<open>DOMParser\<close>,
  \<open>querySelectorAll\<close>, \<open>getAttribute\<close>).
\<close>

record browser =
  new_URL :: url_api
  anchor_hrefs :: "string \<Rightarrow> string list"

text \<open>
  The state of the crawl. The queue is never shortened: \<open>next_index\<close> is the \<open>i\<close> of the
  loop. \<open>visited\<close> and \<open>foundUrls\<close> are \<open>Set\<close>s, held as lists in order of insertion.
  \<open>expanded\<close> is not a variable of the program: it records, in order, the pages the loop
  asked \<open>fetchWithProxy\<close> for, with their depth.
\<close>

record crawl_state =
  crawl_queue :: "(string \<times> nat) list"
  next_index :: nat
  visited :: "string list"
  foundUrls :: "string list"
  expanded :: "(string \<times> nat) list"

definition set_add :: "string list \<Rightarrow> string \<Rightarrow> string list" where
  \<comment> \<open>\<open>Set.prototype.add\<close>\<close>
  "set_add xs x = (if x \<in> set xs then xs else xs @ [x])"

definition strip_fragment :: "string \<Rightarrow> string" where
  \<comment> \<open>\<open>s.split('#')[0]\<close>\<close>
  "strip_fragment s = takeWhile (\<lambda>c. c \<noteq> CHR ''#'') s"

definition visitLink :: "browser \<Rightarrow> URL \<Rightarrow> string \<Rightarrow> nat \<Rightarrow> crawl_state \<Rightarrow> string \<Rightarrow> crawl_state" where
  \<comment> \<open>the callback of \<open>links.forEach\<close>, for the page \<open>pageUrl\<close> at depth \<open>depth\<close>\<close>
  "visitLink br baseUrl pageUrl depth st h =
     (if h = [] \<or> startsWith h ''mailto:'' \<or> startsWith h ''tel:'' then st
      else
        (case new_URL br h (Some pageUrl) of
           None \<Rightarrow> st
         | Some urlObject \<Rightarrow>
             if protocol urlObject \<noteq> ''http:'' \<and> protocol urlObject \<noteq> ''https:'' then st
             else
               (let absoluteUrl = strip_fragment (href urlObject)
                in if hostname urlObject = hostname baseUrl \<and> absoluteUrl \<notin> set (visited st)
                   then st\<lparr>visited := set_add (visited st) absoluteUrl,
                           foundUrls := set_add (foundUrls st) absoluteUrl,
                           crawl_queue := crawl_queue st @ [(absoluteUrl, depth + 1)]\<rparr>
                   else st)))"

definition crawlStep :: "browser \<Rightarrow> (nat \<Rightarrow> transport) \<Rightarrow> URL \<Rightarrow> int \<Rightarrow> crawl_state \<Rightarrow> crawl_state" where
  \<comment> \<open>one iteration of the \<open>while\<close> loop, for \<open>next_index st < length (crawl_queue st)\<close>\<close>
  "crawlStep br net baseUrl crawlDepth st =
     (let (pageUrl, depth) = crawl_queue st ! next_index st;
          st1 = st\<lparr>next_index := next_index st + 1\<rparr>
      in if int depth \<ge> crawlDepth then st1
         else
           (let st2 = st1\<lparr>expanded := expanded st1 @ [(pageUrl, depth)]\<rparr>
            in case fetchWithProxy (net (next_index st)) pageUrl of
                 Inl e \<Rightarrow> st2
               | Inr document \<Rightarrow>
                   foldl (visitLink br baseUrl pageUrl depth) st2 (anchor_hrefs br document)))"

function crawlLoop :: "browser \<Rightarrow> (nat \<Rightarrow> transport) \<Rightarrow> URL \<Rightarrow> int \<Rightarrow> crawl_state \<Rightarrow> crawl_state" where
  "crawlLoop br net baseUrl crawlDepth st =
     (if next_index st < length (crawl_queue st)
      then crawlLoop br net baseUrl crawlDepth (crawlStep br net baseUrl crawlDepth st)
      else st)"
  by pat_completeness auto

definition crawlStart :: "string \<Rightarrow> crawl_state" where
  "crawlStart startUrl =
     \<lparr>crawl_queue = [(startUrl, 0)], next_index = 0, visited = [startUrl],
      foundUrls = [startUrl], expanded = []\<rparr>"

definition crawl :: "browser \<Rightarrow> (nat \<Rightarrow> transport) \<Rightarrow> string \<Rightarrow> int \<Rightarrow> string + crawl_state" where
  \<comment> \<open>discoverUrlsToCrawl with the whole final state; \<open>Inl\<close> when \<open>new URL(startUrl)\<close> throws\<close>
  "crawl br net startUrl crawlDepth =
     (case new_URL br startUrl None of
        None \<Rightarrow> Inl invalid_url_error
      | Some baseUrl \<Rightarrow> Inr (crawlLoop br net baseUrl crawlDepth (crawlStart startUrl)))"

definition discoverUrlsToCrawl :: "browser \<Rightarrow> (nat \<Rightarrow> transport) \<Rightarrow> string \<Rightarrow> int \<Rightarrow> string + string list" where
  "discoverUrlsToCrawl br net startUrl crawlDepth = map_sum id foundUrls (crawl br net startUrl crawlDepth)"

definition hostname_of :: "browser \<Rightarrow> string \<Rightarrow> string option" where
  \<comment> \<open>\<open>new URL(s).hostname\<close>\<close>
  "hostname_of br s = map_option hostname (new_URL br s None)"

definition stable_hostnames :: "browser \<Rightarrow> bool" where
  \<comment> \<open>The parser reads its own output: the \<open>href\<close> of a URL object, without its fragment,
      parses again, to the same host name. The URL Standard's parser does.\<close>
  "stable_hostnames br =
     (\<forall>h b u. new_URL br h b = Some u \<longrightarrow>
        hostname_of br (strip_fragment (href u)) = Some (hostname u))"

definition rank :: "int \<Rightarrow> string \<times> nat \<Rightarrow> nat" where
  \<comment> \<open>how many levels below an entry of the queue may still be expanded\<close>
  "rank crawlDepth e = nat (crawlDepth - int (snd e))"

definition pending_ranks :: "int \<Rightarrow> crawl_state \<Rightarrow> nat multiset" where
  "pending_ranks crawlDepth st = mset (map (rank crawlDepth) (drop (next_index st) (crawl_queue st)))"

definition simple_URL :: url_api where
  \<comment> \<open>a parser for the examples: it accepts absolute \<open>https\<close> URLs and nothing else\<close>
  "simple_URL input base =
     (if startsWith input ''https://'' then
        (let host = takeWhile (\<lambda>c. c \<noteq> CHR ''/'' \<and> c \<noteq> CHR ''#'') (drop 8 input)
         in Some \<lparr>protocol = ''https:'', hostname = host, href = input,
                  origin = ''https://'' @ host\<rparr>)
      else None)"



definition index_site :: "nat \<Rightarrow> transport" where
  \<comment> \<open>a site whose robots.txt names a sitemap index; the index names a sitemap and a page;
      the sitemap names a page and an archive that cannot be fetched\<close>
  "index_site k u i =
     (if u = ''https://example.com/robots.txt''
        then Body ''User-agent: *\<newline>Sitemap: https://example.com/index.xml''
      else if u = ''https://example.com/index.xml'' then Body ''[index]''
      else if u = ''https://example.com/pages.XML'' then Body ''[pages]''
      else NotOk 404)"

definition item_at :: "string \<Rightarrow> SitemapItem" where
  "item_at l = \<lparr>item_loc = Some l, item_lastmod = None, item_changefreq = None, item_priority = None\<rparr>"

definition index_backend :: backend where
  \<comment> \<open>a model that reads the two sitemaps of \<open>index_site\<close>\<close>
  "index_backend =
     \<lparr>generateContent =
        (\<lambda>apiKey agent req. case req of ParseSitemap c \<Rightarrow> Inr (Some c) | _ \<Rightarrow> Inl ''unsupported''),
      chatCompletions =
        (\<lambda>apiKey agent req. case req of ParseSitemap c \<Rightarrow> ChatOk (Inr c) | _ \<Rightarrow> ChatRejected ''unsupported''),
      parsePages = (\<lambda>s. Inl ''Unexpected token''),
      parseSitemap =
        (\<lambda>s. if s = ''[index]''
                 then Inr (PArray [item_at ''https://example.com/pages.XML'', item_at ''https://example.com/a''])
               else if s = ''[pages]''
                 then Inr (PArray [item_at ''https://example.com/b'', item_at ''https://example.com/old.xml.gz''])
               else Inl ''Unexpected token''),
      parseRobots = (\<lambda>s. Inl ''Unexpected token''),
      parseAds = (\<lambda>s. Inl ''Unexpected token'')\<rparr>"

definition example_browser :: browser where
  \<comment> \<open>the home page links to two pages of the site (one with a fragment), to another
      site, and to a mail address; the other pages have no links\<close>
  "example_browser =
     \<lparr>new_URL = simple_URL,
      anchor_hrefs = (\<lambda>document. if document = ''home''
         then [''https://example.com/a'', ''https://example.com/b#top'', ''https://other.org/x'',
               ''mailto:me@example.com'', ''https://example.com/a'']
         else [])\<rparr>"

definition example_site :: "nat \<Rightarrow> transport" where
  "example_site k u i = (if u = ''https://example.com'' then Body ''home'' else Body ''leaf'')"

section \<open>Invariants of the sitemap traversal\<close>

definition leaves_only :: "sitemap_state \<Rightarrow> bool" where
  "leaves_only st = (\<forall>e\<in>set (allEntries st). \<not> isSitemapLoc (loc e) \<and> loc e \<noteq> [])"

definition traversal_inv :: "sitemap_state \<Rightarrow> bool" where
  "traversal_inv st =
     (leaves_only st \<and> distinct (visitedSitemaps st) \<and>
      fetches st = Suc (length (visitedSitemaps st)))"



section \<open>Invariant of the crawl\<close>

definition crawl_inv :: "browser \<Rightarrow> string \<Rightarrow> int \<Rightarrow> crawl_state \<Rightarrow> bool" where
  \<comment> \<open>for the host name \<open>host\<close> of the seed: the depths in the queue, the pages expanded,
      the URLs found and their host names\<close>
  "crawl_inv br host crawlDepth st =
     ((\<forall>e\<in>set (crawl_queue st). snd e = 0 \<or> int (snd e) \<le> crawlDepth) \<and>
      (\<forall>e\<in>set (expanded st). int (snd e) < crawlDepth) \<and>
      set (foundUrls st) = fst ` set (crawl_queue st) \<and>
      set (visited st) = set (foundUrls st) \<and>
      (\<forall>found\<in>set (foundUrls st). hostname_of br found = Some host))"

section \<open>Properties of the string functions\<close>

lemma indexOf_ge: "- 1 \<le> indexOf s c"
  by (induction s) (auto simp: Let_def)

lemma indexOf_none: "c \<notin> set s \<Longrightarrow> indexOf s c = - 1"
  by (induction s) (auto simp: Let_def)

lemma indexOf_append_hit: "c \<notin> set pre \<Longrightarrow> indexOf (pre @ c # rest) c = int (length pre)"
  by (induction pre) (auto simp: Let_def)

lemma indexOf_append_ge:
  "c \<notin> set pre \<Longrightarrow> indexOf (pre @ rest) c = - 1 \<or> int (length pre) \<le> indexOf (pre @ rest) c"
proof (induction pre)
  case Nil
  have "- 1 \<le> indexOf rest c" by (rule indexOf_ge)
  then show ?case by auto
next
  case (Cons x pre)
  then show ?case by (auto simp: Let_def)
qed

lemma lastIndexOf_ge: "- 1 \<le> lastIndexOf s c"
  by (induction s) (auto simp: Let_def)

lemma lastIndexOf_none: "c \<notin> set s \<Longrightarrow> lastIndexOf s c = - 1"
  by (induction s) (auto simp: Let_def)

lemma lastIndexOf_append_hit:
  "c \<notin> set post \<Longrightarrow> lastIndexOf (pre @ c # post) c = int (length pre)"
  by (induction pre) (auto simp: Let_def lastIndexOf_none)

lemma lastIndexOf_append_le:
  "c \<notin> set post \<Longrightarrow> lastIndexOf (pre @ post) c < int (length pre)"
proof (induction pre)
  case Nil
  then show ?case by (simp add: lastIndexOf_none)
next
  case (Cons x pre)
  have "- 1 \<le> lastIndexOf (pre @ post) c" by (rule lastIndexOf_ge)
  with Cons show ?case by (auto simp: Let_def)
qed

section \<open>extractJson: the span it returns\<close>

lemma first_opening:
  fixes rest :: string
  assumes "no_opening pre" "is_opening a"
  defines "t \<equiv> pre @ a # rest"
  shows "\<not> (indexOf t CHR ''{'' = - 1 \<and> indexOf t CHR ''['' = - 1)"
    and "(if indexOf t CHR ''{'' = - 1 then indexOf t CHR ''[''
          else if indexOf t CHR ''['' = - 1 then indexOf t CHR ''{''
          else min (indexOf t CHR ''{'') (indexOf t CHR ''['')) = int (length pre)"
proof -
  from assms(1) have n1: "CHR ''{'' \<notin> set pre" and n2: "CHR ''['' \<notin> set pre"
    by (auto simp: no_opening_def is_opening_def list_all_iff)
  from assms(2) consider "a = CHR ''{''" | "a = CHR ''[''" by (auto simp: is_opening_def)
  then have "(indexOf t CHR ''{'' = int (length pre) \<and>
               (indexOf t CHR ''['' = - 1 \<or> int (length pre) \<le> indexOf t CHR ''[''))
           \<or> (indexOf t CHR ''['' = int (length pre) \<and>
               (indexOf t CHR ''{'' = - 1 \<or> int (length pre) \<le> indexOf t CHR ''{''))"
  proof cases
    case 1
    then show ?thesis
      using indexOf_append_hit[OF n1, of rest] indexOf_append_ge[OF n2, of "a # rest"]
      by (simp add: t_def)
  next
    case 2
    then show ?thesis
      using indexOf_append_hit[OF n2, of rest] indexOf_append_ge[OF n1, of "a # rest"]
      by (simp add: t_def)
  qed
  then show "\<not> (indexOf t CHR ''{'' = - 1 \<and> indexOf t CHR ''['' = - 1)"
    and "(if indexOf t CHR ''{'' = - 1 then indexOf t CHR ''[''
          else if indexOf t CHR ''['' = - 1 then indexOf t CHR ''{''
          else min (indexOf t CHR ''{'') (indexOf t CHR ''['')) = int (length pre)"
    by auto
qed

lemma last_closing:
  fixes front :: string
  assumes "is_closing z" "no_closing post"
  defines "t \<equiv> front @ z # post"
  shows "max (lastIndexOf t CHR ''}'') (lastIndexOf t CHR '']'') = int (length front)"
proof -
  from assms(2) have n1: "CHR ''}'' \<notin> set post" and n2: "CHR '']'' \<notin> set post"
    by (auto simp: no_closing_def is_closing_def list_all_iff)
  from assms(1) consider "z = CHR ''}''" | "z = CHR '']''" by (auto simp: is_closing_def)
  then show ?thesis
  proof cases
    case 1
    then show ?thesis
      using lastIndexOf_append_hit[OF n1, of front] lastIndexOf_append_le[OF n2, of "front @ [z]"]
      by (simp add: t_def)
  next
    case 2
    then show ?thesis
      using lastIndexOf_append_hit[OF n2, of front] lastIndexOf_append_le[OF n1, of "front @ [z]"]
      by (simp add: t_def)
  qed
qed

lemma no_closing_after:
  assumes "no_closing post"
  shows "max (lastIndexOf (pre @ post) CHR ''}'') (lastIndexOf (pre @ post) CHR '']'') < int (length pre)"
proof -
  from assms have n1: "CHR ''}'' \<notin> set post" and n2: "CHR '']'' \<notin> set post"
    by (auto simp: no_closing_def is_closing_def list_all_iff)
  show ?thesis
    using lastIndexOf_append_le[OF n1, of pre] lastIndexOf_append_le[OF n2, of pre] by simp
qed

lemma extractJson_no_opening:
  assumes "no_opening text"
  shows "extractJson text = ''''"
proof -
  from assms have n1: "CHR ''{'' \<notin> set text" and n2: "CHR ''['' \<notin> set text"
    by (auto simp: no_opening_def is_opening_def list_all_iff)
  show ?thesis
    by (simp add: extractJson_def Let_def indexOf_none[OF n1] indexOf_none[OF n2])
qed

lemma extractJson_found:
  assumes "no_opening pre" "is_opening a" "is_closing z" "no_closing post"
  shows "extractJson (pre @ a # mid @ z # post) = a # mid @ [z]"
proof -
  let ?t = "pre @ a # mid @ z # post"
  have e: "max (lastIndexOf ?t CHR ''}'') (lastIndexOf ?t CHR '']'') = int (length (pre @ a # mid))"
    using last_closing[OF assms(3,4), of "pre @ a # mid"] by simp
  have n: "nat (2 + int (length mid)) = Suc (Suc (length mid))" by simp
  show ?thesis
    unfolding extractJson_def Let_def
    using first_opening[OF assms(1,2), of "mid @ z # post"] 
    by (simp only: e if_False) (simp add: substring_def Let_def n)
qed

lemma extractJson_unclosed:
  assumes "no_opening pre" "is_opening a" "no_closing rest"
  shows "extractJson (pre @ a # rest) = ''''"
proof -
  have "is_opening a \<Longrightarrow> \<not> is_closing a" by (auto simp: is_opening_def is_closing_def)
  with assms have nc: "no_closing (a # rest)" by (simp add: no_closing_def)
  have e: "max (lastIndexOf (pre @ a # rest) CHR ''}'') (lastIndexOf (pre @ a # rest) CHR '']'') < int (length pre)"
    using no_closing_after[OF nc, of pre] by simp
  show ?thesis
    unfolding extractJson_def Let_def
    using first_opening[OF assms(1,2), of rest] e
    by simp
qed

text \<open>
  Claim C9, as the specification states it, fails: the span does not end at the closing
  bracket that matches the opening one. \<open>extractJson\<close> takes the later of the last \<open>}\<close>
  and the last \<open>]\<close>, of whichever kind: a text that opens with \<open>[\<close> and whose last
  closing bracket is a \<open>}\<close> gives a span from \<open>[\<close> to \<open>}\<close>.
\<close>

theorem extractJson_matching_counterexample:
  "extractJson ''[1, {2} b'' = ''[1, {2}'' \<and> extractJson ''{a} ]'' = ''{a} ]''"
  by (simp add: extractJson_def substring_def Let_def)

text \<open>
  Claim C9, amended. \<open>extractJson\<close> returns the span of the text from the first \<open>{\<close> or
  \<open>[\<close> (whichever comes first) to the last \<open>}\<close> or \<open>]\<close> (whichever comes last, and
  whether or not it is of the kind of the opening bracket: brackets are not paired), both
  included, and drops what is before and after that span. It returns the empty string
  when the text has no opening bracket, and when no closing bracket stands after the first
  opening bracket (the last closing bracket precedes it, or there is none). On
  \<open>Here you go: [{...}] Thanks!\<close> it returns \<open>[{...}]\<close>.
\<close>

theorem extractJson_span:
  "(no_opening text \<longrightarrow> extractJson text = '''') \<and>
   (no_opening pre \<and> is_opening a \<and> is_closing z \<and> no_closing post \<longrightarrow>
      extractJson (pre @ a # mid @ z # post) = a # mid @ [z]) \<and>
   (no_opening pre \<and> is_opening a \<and> no_closing rest \<longrightarrow> extractJson (pre @ a # rest) = '''') \<and>
   extractJson ''Here you go: [{...}] Thanks!'' = ''[{...}]''"
proof (intro conjI impI)
  show "extractJson ''Here you go: [{...}] Thanks!'' = ''[{...}]''"
    by (simp add: extractJson_def substring_def Let_def)
qed (auto intro: extractJson_no_opening extractJson_found extractJson_unclosed)

theorem extractJson_span_witness:
  "extractJson ''no brackets here'' = '''' \<and>
   extractJson (''Result: '' @ CHR ''{'' # ''rules: [], sitemaps: []'' @ CHR ''}'' # '' Done.'')
     = CHR ''{'' # ''rules: [], sitemaps: []'' @ ''}'' \<and>
   extractJson (''] before '' @ CHR ''['' # '' and nothing after'') = ''''"
  using extractJson_span [of "''no brackets here''" "''Result: ''" "CHR ''{''" "CHR ''}''" "'' Done.''"
      "''rules: [], sitemaps: []''" "'' and nothing after''"]
    extractJson_span [of "''x''" "''] before ''" "CHR ''[''" "CHR '']''" "''''"
      "''''" "'' and nothing after''"]
  by (simp add: no_opening_def no_closing_def is_opening_def is_closing_def)

section \<open>analyzePageBatch and calculateCrawlSummary: auxiliary facts\<close>


lemma fetchWithProxy_cases:
  "fetchWithProxy tr u =
     (case attempt tr u 0 of Inr t \<Rightarrow> Inr t | Inl _ \<Rightarrow>
       (case attempt tr u (Suc 0) of Inr t \<Rightarrow> Inr t | Inl _ \<Rightarrow>
         (case attempt tr u (Suc (Suc 0)) of Inr t \<Rightarrow> Inr t | Inl _ \<Rightarrow> Inl (final_attempt_error u 3))))"
proof -
  have 2: "fetch_loop tr u 3 (Suc (Suc 0)) =
      (case attempt tr u (Suc (Suc 0)) of Inr t \<Rightarrow> Inr t | Inl _ \<Rightarrow> Inl (final_attempt_error u 3))"
    by (subst fetch_loop.simps) (simp split: sum.splits)
  have 1: "fetch_loop tr u 3 (Suc 0) =
      (case attempt tr u (Suc 0) of Inr t \<Rightarrow> Inr t | Inl _ \<Rightarrow> fetch_loop tr u 3 (Suc (Suc 0)))"
    by (subst fetch_loop.simps) (simp split: sum.splits)
  have 0: "fetch_loop tr u 3 0 =
      (case attempt tr u 0 of Inr t \<Rightarrow> Inr t | Inl _ \<Rightarrow> fetch_loop tr u 3 (Suc 0))"
    by (subst fetch_loop.simps) (simp split: sum.splits)
  show ?thesis
    unfolding fetchWithProxy_def 0 1 2 ..
qed


lemma final_attempt_error_nonempty: "final_attempt_error u n \<noteq> []"
  by (simp add: final_attempt_error_def)

lemma fetchPages_urls: "map page_url (fetchPages net k us) = us"
  by (induction us arbitrary: k) (auto simp: fetchPage_def split: sum.splits)

lemma length_fetchPages: "length (fetchPages net k us) = length us"
  by (induction us arbitrary: k) auto

lemma url_fetchFailedPage: "url (fetchFailedPage p) = page_url p"
  by (simp add: fetchFailedPage_def)

lemma url_analysisFailedPage: "url (analysisFailedPage e p) = page_url p"
  by (simp add: analysisFailedPage_def)

lemma partition_length:
  "length (fetchedFailed net urls) + length (fetchedOk net urls) = length urls"
  using sum_length_filter_compl[of "\<lambda>p. html p = None" "fetchPages net 0 urls"]
  by (simp add: fetchedFailed_def fetchedOk_def length_fetchPages)

lemma partition_urls:
  "mset (map page_url (fetchedFailed net urls)) + mset (map page_url (fetchedOk net urls)) = mset urls"
proof -
  have "mset (filter (\<lambda>p. html p = None) (fetchPages net 0 urls)) + mset (filter (\<lambda>p. html p \<noteq> None) (fetchPages net 0 urls)) = mset (fetchPages net 0 urls)"
    by simp
  then have "image_mset page_url (mset (fetchedFailed net urls) + mset (fetchedOk net urls)) = image_mset page_url (mset (fetchPages net 0 urls))"
    unfolding fetchedFailed_def fetchedOk_def by (simp only:)
  then show ?thesis
    using fetchPages_urls[of net 0 urls] by (metis image_mset_union mset_map)
qed

lemma analyzePageBatch_unfold:
  "apiKey \<noteq> [] \<Longrightarrow> analyzePageBatch net be agent apiKey urls =
     (if fetchedOk net urls = [] then Inr (map fetchFailedPage (fetchedFailed net urls))
      else case requestPageAnalysis be agent apiKey (fetchedOk net urls) of
             Inr parsedData \<Rightarrow> Inr (map fetchFailedPage (fetchedFailed net urls) @ map aiResult parsedData)
           | Inl message \<Rightarrow> Inr (map fetchFailedPage (fetchedFailed net urls) @
                 map (analysisFailedPage (analysisErrorMessage message)) (fetchedOk net urls)))"
  unfolding analyzePageBatch_def fetchedOk_def fetchedFailed_def Let_def
  by (simp del: not_None_eq)

lemma summary_fold:
  "foldl summaryStep acc pages =
     \<lparr>totalPages = totalPages acc + length pages,
      healthyPages = healthyPages acc + length (filter (\<lambda>p. 200 \<le> status p \<and> status p < 300) pages),
      redirects = redirects acc + length (filter (\<lambda>p. 300 \<le> status p \<and> status p < 400) pages),
      clientErrors = clientErrors acc + length (filter (\<lambda>p. 400 \<le> status p \<and> status p < 500) pages),
      serverErrors = serverErrors acc + length (filter (\<lambda>p. 500 \<le> status p) pages)\<rparr>"
proof (induction pages arbitrary: acc)
  case Nil
  then show ?case by simp
next
  case (Cons p pages)
  show ?case
    by (simp only: foldl_Cons Cons.IH) (simp add: summaryStep_def Let_def)
qed


lemma number_text_3: "number_text 3 = ''3''"
  by code_simp

lemma fetchWithProxy_offline: "fetchWithProxy (offline k) u = Inl (final_attempt_error u 3)"
  by (simp add: fetchWithProxy_cases attempt_def offline_def)

lemma fetchWithProxy_online: "fetchWithProxy (online k) u = Inr ''<html><title>Home</title></html>''"
  by (simp add: fetchWithProxy_cases attempt_def online_def)

lemma fetchWithProxy_first_only:
  "fetchWithProxy (first_only k) u =
     (if k = 0 then Inr ''<html><title>Home</title></html>'' else Inl (final_attempt_error u 3))"
  by (simp add: fetchWithProxy_cases attempt_def first_only_def)


lemma buckets_sum:
  "length (filter (\<lambda>p. 200 \<le> status p \<and> status p < 300) pages) +
   length (filter (\<lambda>p. 300 \<le> status p \<and> status p < 400) pages) +
   length (filter (\<lambda>p. 400 \<le> status p \<and> status p < 500) pages) +
   length (filter (\<lambda>p. 500 \<le> status p) pages) =
   length (filter (\<lambda>p. 200 \<le> status p) pages)"
  by (induction pages) auto

lemma all_counted_iff:
  "(length (filter (\<lambda>p. 200 \<le> status p) pages) = length pages) =
   (filter (\<lambda>p. status p < 200) pages = [])"
proof (induction pages)
  case Nil
  then show ?case by simp
next
  case (Cons p pages)
  have le: "length (filter (\<lambda>p. 200 \<le> status p) pages) \<le> length pages"
    by (rule length_filter_le)
  show ?case
  proof (cases "status p < 200")
    case True
    from le have "length (filter (\<lambda>p. 200 \<le> status p) pages) \<noteq> Suc (length pages)"
      by linarith
    with True show ?thesis by simp
  next
    case False
    with Cons show ?thesis by simp
  qed
qed

section \<open>Claims about analyzePageBatch\<close>

text \<open>
  Claim C1, as the specification states it, fails: the program returns what the model's
  array holds, however many elements that is. With one URL that is fetched and a model
  that answers with the empty array, the result is empty.
\<close>

theorem analyzePageBatch_length_counterexample:
  "analyzePageBatch online empty_array_backend example_agent ''secret'' [''https://example.com/'']
     = Inr []"
  by (simp add: analyzePageBatch_def fetchPage_def fetchWithProxy_online Let_def
      requestPageAnalysis_def example_agent_def empty_array_backend_def extractJson_def
      substring_def as_array_def)

text \<open>
  Claim C1, amended. For every list of URLs, every agent and every non-empty API key,
  analyzePageBatch returns a list. When no fetch succeeds, or the model call or the reading
  of its reply fails, the list has the length of the input and its urls are the input URLs
  with their multiplicities (so the same set, in some order). When the reply is read as an
  array, the list is one placeholder for each failed fetch followed by one record for each
  element of that array: its length is that of the input exactly when the array has as
  many elements as pages were fetched, and its urls are those the model gave.
\<close>

theorem analyzePageBatch_accounts:
  assumes "apiKey \<noteq> []"
  shows "\<exists>ps. analyzePageBatch net be agent apiKey urls = Inr ps \<and>
           ((fetchedOk net urls = [] \<or>
             (\<exists>m. requestPageAnalysis be agent apiKey (fetchedOk net urls) = Inl m)) \<longrightarrow>
              length ps = length urls \<and> mset (map url ps) = mset urls) \<and>
           (\<forall>items. fetchedOk net urls \<noteq> [] \<and>
              requestPageAnalysis be agent apiKey (fetchedOk net urls) = Inr items \<longrightarrow>
              ps = map fetchFailedPage (fetchedFailed net urls) @ map aiResult items \<and>
              length ps + length (fetchedOk net urls) = length urls + length items)"
proof -
  have urls_failed: "image_mset url (image_mset fetchFailedPage M) = image_mset page_url M" for M
    by (simp add: multiset.map_comp comp_def url_fetchFailedPage)
  have urls_analysis:
    "image_mset url (image_mset (analysisFailedPage e) M) = image_mset page_url M" for e M
    by (simp add: multiset.map_comp comp_def url_analysisFailedPage)
  note len = partition_length[of net urls]
  note ms = partition_urls[of net urls]
  show ?thesis
  proof (cases "fetchedOk net urls = []")
    case True
    with assms len ms show ?thesis
      by (simp add: analyzePageBatch_unfold urls_failed)
  next
    case False
    show ?thesis
    proof (cases "requestPageAnalysis be agent apiKey (fetchedOk net urls)")
      case (Inl m)
      with assms False len ms show ?thesis
        by (simp add: analyzePageBatch_unfold urls_failed urls_analysis)
    next
      case (Inr items)
      with assms False len show ?thesis
        by (simp add: analyzePageBatch_unfold)
    qed
  qed
qed

theorem analyzePageBatch_accounts_witness:
  "\<exists>ps. analyzePageBatch offline empty_array_backend example_agent ''secret''
            [''https://example.com/'', ''https://example.com/about''] = Inr ps \<and>
         length ps = length [''https://example.com/'', ''https://example.com/about''] \<and>
         mset (map url ps) = mset [''https://example.com/'', ''https://example.com/about'']"
  using analyzePageBatch_accounts [of "''secret''" offline empty_array_backend example_agent
      "[''https://example.com/'', ''https://example.com/about'']"]
  by (simp add: fetchedOk_def fetchPage_def fetchWithProxy_offline)

text \<open>
  Claim C4. When at least one URL of the batch was fetched and the model call or the
  reading of its reply throws, analyzePageBatch does not throw: it returns the fetch-failure
  placeholders as they were, followed by one record for each fetched page with status 500
  and title \<open>Analysis Failed\<close>. The description is the rate-limit message when the message
  of the error contains \<open>429\<close>, \<open>RESOURCE_EXHAUSTED\<close> or \<open>rate limit\<close>, and the message of
  the error otherwise (\<open>Could not parse AI response.\<close> stands in for an empty message).
\<close>

theorem analyzePageBatch_analysis_failed:
  assumes "apiKey \<noteq> []"
    and "fetchedOk net urls \<noteq> []"
    and "requestPageAnalysis be agent apiKey (fetchedOk net urls) = Inl message"
  shows "analyzePageBatch net be agent apiKey urls =
           Inr (map fetchFailedPage (fetchedFailed net urls) @
                map (\<lambda>p. \<lparr>url = page_url p, status = 500, title = ''Analysis Failed'',
                           description =
                             (if includes_str message ''429'' \<or>
                                 includes_str message ''RESOURCE_EXHAUSTED'' \<or>
                                 includes_str message ''rate limit''
                              then ''API rate limit exceeded. Please wait a moment and try again.''
                              else if message = [] then ''Could not parse AI response.''
                              else message),
                           h1 = ''N/A'', contentPreview = ''N/A'', internalLinks = 0,
                           externalLinks = 0, metaTags = [], internalLinkUrls = None,
                           externalLinkUrls = None\<rparr>)
                    (fetchedOk net urls))"
  using assms
  by (simp add: analyzePageBatch_unfold analysisFailedPage_def analysisErrorMessage_def
      isRateLimitError_def)

theorem analyzePageBatch_analysis_failed_witness:
  "analyzePageBatch first_only rate_limited_backend example_agent ''secret''
     [''https://example.com/'', ''https://example.com/about''] =
   Inr [\<lparr>url = ''https://example.com/about'', status = 500, title = ''Fetch Failed'',
         description = final_attempt_error ''https://example.com/about'' 3,
         h1 = ''N/A'', contentPreview = ''N/A'', internalLinks = 0, externalLinks = 0,
         metaTags = [], internalLinkUrls = None, externalLinkUrls = None\<rparr>,
        \<lparr>url = ''https://example.com/'', status = 500, title = ''Analysis Failed'',
         description = ''API rate limit exceeded. Please wait a moment and try again.'',
         h1 = ''N/A'', contentPreview = ''N/A'', internalLinks = 0, externalLinks = 0,
         metaTags = [], internalLinkUrls = None, externalLinkUrls = None\<rparr>]"
proof -
  have ok: "fetchedOk first_only [''https://example.com/'', ''https://example.com/about''] =
      [\<lparr>page_url = ''https://example.com/'', html = Some ''<html><title>Home</title></html>'',
        page_status = 200, fetch_error = None\<rparr>]"
    by (simp add: fetchedOk_def fetchPage_def fetchWithProxy_first_only)
  have st: "match_status (final_attempt_error ''https://example.com/about'' 3) = None"
    by (simp add: final_attempt_error_def number_text_3 is_digit_def)
  have failed: "fetchedFailed first_only [''https://example.com/'', ''https://example.com/about''] =
      [\<lparr>page_url = ''https://example.com/about'', html = None, page_status = 500,
        fetch_error = Some (final_attempt_error ''https://example.com/about'' 3)\<rparr>]"
    by (simp add: fetchedFailed_def fetchPage_def fetchWithProxy_first_only st)
  have req: "requestPageAnalysis rate_limited_backend example_agent ''secret''
      (fetchedOk first_only [''https://example.com/'', ''https://example.com/about'']) =
      Inl ''got status: 429 Too Many Requests''"
    by (simp add: requestPageAnalysis_def example_agent_def rate_limited_backend_def)
  show ?thesis
    using analyzePageBatch_analysis_failed [of "''secret''" first_only
        "[''https://example.com/'', ''https://example.com/about'']" rate_limited_backend
        example_agent "''got status: 429 Too Many Requests''"] req
    by (simp add: ok failed fetchFailedPage_def final_attempt_error_nonempty)
qed





text \<open>
  Claim C10. With a non-empty API key, analyzePageBatch on the empty list of URLs
  returns the empty list, whatever the agent, and whatever the model backend would answer:
  two backends give the same result.
\<close>

theorem analyzePageBatch_empty:
  assumes "apiKey \<noteq> []"
  shows "analyzePageBatch net be agent apiKey [] = Inr [] \<and>
         analyzePageBatch net be' agent apiKey [] = analyzePageBatch net be agent apiKey []"
  using assms by (simp add: analyzePageBatch_unfold fetchedOk_def fetchedFailed_def)

theorem analyzePageBatch_empty_witness:
  "analyzePageBatch online empty_array_backend example_agent ''secret'' [] = Inr [] \<and>
   analyzePageBatch online rate_limited_backend example_agent ''secret'' [] =
     analyzePageBatch online empty_array_backend example_agent ''secret'' []"
  using analyzePageBatch_empty [of "''secret''" online empty_array_backend example_agent
      rate_limited_backend]
  by simp

section \<open>Claim about calculateCrawlSummary\<close>

text \<open>
  Claim C5, as the specification states it, fails: a page whose status is below 200 is
  counted in \<open>totalPages\<close> and in none of the four buckets.
\<close>

theorem calculateCrawlSummary_sum_counterexample:
  "totalPages (calculateCrawlSummary [informational_page]) = 1 \<and>
   healthyPages (calculateCrawlSummary [informational_page]) +
   redirects (calculateCrawlSummary [informational_page]) +
   clientErrors (calculateCrawlSummary [informational_page]) +
   serverErrors (calculateCrawlSummary [informational_page]) = 0"
  by (simp add: calculateCrawlSummary_def summaryStep_def informational_page_def Let_def)

text \<open>
  Claim C5, amended. calculateCrawlSummary is a function of the list of pages alone (it
  starts from a fresh accumulator, so running it again gives the same counts).
  \<open>totalPages\<close> is the length of the list; the four buckets count the pages whose status
  lies in the ranges 200 to 299, 300 to 399, 400 to 499, and 500 and above, which exclude
  each other; their sum is the number of pages whose status is at least 200, and it equals
  \<open>totalPages\<close> exactly when no page has a status below 200.
\<close>

theorem calculateCrawlSummary_buckets:
  "totalPages (calculateCrawlSummary pages) = length pages \<and>
   healthyPages (calculateCrawlSummary pages) =
     length (filter (\<lambda>p. 200 \<le> status p \<and> status p < 300) pages) \<and>
   redirects (calculateCrawlSummary pages) =
     length (filter (\<lambda>p. 300 \<le> status p \<and> status p < 400) pages) \<and>
   clientErrors (calculateCrawlSummary pages) =
     length (filter (\<lambda>p. 400 \<le> status p \<and> status p < 500) pages) \<and>
   serverErrors (calculateCrawlSummary pages) = length (filter (\<lambda>p. 500 \<le> status p) pages) \<and>
   healthyPages (calculateCrawlSummary pages) + redirects (calculateCrawlSummary pages) +
     clientErrors (calculateCrawlSummary pages) + serverErrors (calculateCrawlSummary pages) =
     length (filter (\<lambda>p. 200 \<le> status p) pages) \<and>
   ((healthyPages (calculateCrawlSummary pages) + redirects (calculateCrawlSummary pages) +
     clientErrors (calculateCrawlSummary pages) + serverErrors (calculateCrawlSummary pages) =
     totalPages (calculateCrawlSummary pages)) =
    (filter (\<lambda>p. status p < 200) pages = []))"
  using buckets_sum[of pages] all_counted_iff[of pages]
  by (simp add: calculateCrawlSummary_def summary_fold)

theorem calculateCrawlSummary_buckets_witness:
  "calculateCrawlSummary
     [informational_page\<lparr>status := 200\<rparr>, informational_page\<lparr>status := 301\<rparr>,
      informational_page\<lparr>status := 404\<rparr>, informational_page\<lparr>status := 500\<rparr>,
      informational_page\<lparr>status := 204\<rparr>] =
   \<lparr>totalPages = 5, healthyPages = 2, redirects = 1, clientErrors = 1, serverErrors = 1\<rparr>"
  using calculateCrawlSummary_buckets
    [of "[informational_page\<lparr>status := 200\<rparr>, informational_page\<lparr>status := 301\<rparr>,
          informational_page\<lparr>status := 404\<rparr>, informational_page\<lparr>status := 500\<rparr>,
          informational_page\<lparr>status := 204\<rparr>]"]
  by (cases "calculateCrawlSummary
     [informational_page\<lparr>status := 200\<rparr>, informational_page\<lparr>status := 301\<rparr>,
      informational_page\<lparr>status := 404\<rparr>, informational_page\<lparr>status := 500\<rparr>,
      informational_page\<lparr>status := 204\<rparr>]") simp

section \<open>The sitemap traversal: auxiliary facts\<close>

lemma requestSitemapEntries_loc:
  "requestSitemapEntries be agent apiKey c = Inr entries \<Longrightarrow> \<forall>e\<in>set entries. loc e \<noteq> []"
  by (auto simp: requestSitemapEntries_def Let_def split: if_splits sum.splits option.splits chat_reply.splits)

lemma parseSitemapWithAI_loc:
  "parseSitemapWithAI be agent apiKey c = Inr entries \<Longrightarrow> \<forall>e\<in>set entries. loc e \<noteq> []"
  using requestSitemapEntries_loc
  by (fastforce simp: parseSitemapWithAI_def split: sum.splits if_splits)

lemma addEntry_fold:
  "foldl addEntry st entries =
     st\<lparr>queue := queue st @ map loc (filter (\<lambda>e. isSitemapLoc (loc e) \<and> loc e \<notin> set (visitedSitemaps st)) entries),
        allEntries := allEntries st @ filter (\<lambda>e. \<not> isSitemapLoc (loc e)) entries\<rparr>"
proof (induction entries arbitrary: st)
  case Nil
  then show ?case by simp
next
  case (Cons e entries)
  show ?case
    by (simp only: foldl_Cons Cons.IH) (simp add: addEntry_def)
qed

lemma processSitemap_effect:
  "\<exists>entries. (\<forall>e\<in>set entries. loc e \<noteq> []) \<and>
     processSitemap net be agent apiKey cur st =
       st\<lparr>fetches := Suc (fetches st),
          queue := queue st @ map loc (filter (\<lambda>e. isSitemapLoc (loc e) \<and> loc e \<notin> set (visitedSitemaps st)) entries),
          allEntries := allEntries st @ filter (\<lambda>e. \<not> isSitemapLoc (loc e)) entries\<rparr>"
proof (cases "fetchWithProxy (net (fetches st)) cur")
  case (Inl e)
  then show ?thesis
    by (intro exI[of _ "[]"]) (simp add: processSitemap_def)
next
  case (Inr c)
  show ?thesis
  proof (cases "parseSitemapWithAI be agent apiKey c")
    case (Inl e)
    with Inr show ?thesis
      by (intro exI[of _ "[]"]) (simp add: processSitemap_def)
  next
    case (Inr entries)
    with \<open>fetchWithProxy (net (fetches st)) cur = Inr c\<close> parseSitemapWithAI_loc[OF Inr]
    show ?thesis
      by (intro exI[of _ entries]) (simp add: processSitemap_def addEntry_fold)
  qed
qed

lemma processSitemap_inv:
  assumes "traversal_inv (st\<lparr>fetches := Suc (fetches st)\<rparr>)"
  shows "traversal_inv (processSitemap net be agent apiKey cur st)"
proof -
  from processSitemap_effect[of net be agent apiKey cur st] obtain entries where
    e: "\<forall>e\<in>set entries. loc e \<noteq> []" and
    p: "processSitemap net be agent apiKey cur st =
       st\<lparr>fetches := Suc (fetches st),
          queue := queue st @ map loc (filter (\<lambda>e. isSitemapLoc (loc e) \<and> loc e \<notin> set (visitedSitemaps st)) entries),
          allEntries := allEntries st @ filter (\<lambda>e. \<not> isSitemapLoc (loc e)) entries\<rparr>"
    by blast
  from assms e show ?thesis
    unfolding p by (auto simp: traversal_inv_def leaves_only_def)
qed

lemma sitemapLoop_inv:
  "sitemapLoop n net be agent apiKey st = Some st' \<Longrightarrow> traversal_inv st \<Longrightarrow> traversal_inv st'"
proof (induction n arbitrary: st)
  case 0
  then show ?case by (simp split: if_splits)
next
  case (Suc n)
  show ?case
  proof (cases "queue st")
    case Nil
    with Suc.prems show ?thesis by simp
  next
    case (Cons cur rest)
    show ?thesis
    proof (cases "cur \<in> set (visitedSitemaps st)")
      case True
      with Cons Suc.prems have "sitemapLoop n net be agent apiKey (st\<lparr>queue := rest\<rparr>) = Some st'"
        by simp
      moreover from Suc.prems(2) have "traversal_inv (st\<lparr>queue := rest\<rparr>)"
        by (simp add: traversal_inv_def leaves_only_def)
      ultimately show ?thesis by (rule Suc.IH)
    next
      case False
      let ?st1 = "st\<lparr>queue := rest, visitedSitemaps := visitedSitemaps st @ [cur]\<rparr>"
      from False Cons Suc.prems
      have "sitemapLoop n net be agent apiKey (processSitemap net be agent apiKey cur ?st1) = Some st'"
        by simp
      moreover from Suc.prems(2) False have "traversal_inv (?st1\<lparr>fetches := Suc (fetches ?st1)\<rparr>)"
        by (simp add: traversal_inv_def leaves_only_def)
      then have "traversal_inv (processSitemap net be agent apiKey cur ?st1)"
        by (rule processSitemap_inv)
      ultimately show ?thesis by (rule Suc.IH)
    qed
  qed
qed

lemma sitemapStart_inv: "traversal_inv (sitemapStart net siteOrigin)"
  by (simp add: sitemapStart_def traversal_inv_def leaves_only_def Let_def)

lemma sitemapTraversal_inv:
  "sitemapTraversal fuel newURL net be u agent apiKey = Some (Inr st) \<Longrightarrow> traversal_inv st"
  using sitemapLoop_inv sitemapStart_inv
  by (fastforce simp: sitemapTraversal_def split: if_splits option.splits)

section \<open>Claims about fetchAllUrlsFromSitemaps\<close>

text \<open>
  Claim C3. Whenever fetchAllUrlsFromSitemaps returns a list, no entry of it has a \<open>loc\<close>
  that ends, letter case aside, in \<open>.xml\<close> or in \<open>.xml.gz\<close>. An entry with such a \<open>loc\<close>
  is never appended to the accumulated result: its \<open>loc\<close> is put at the end of the queue
  of sitemaps, unless that sitemap has been visited already.
\<close>

theorem sitemap_entries_are_leaves:
  assumes "fetchAllUrlsFromSitemaps fuel newURL net be u agent apiKey = Some (Inr entries)"
  shows "(\<forall>e\<in>set entries. \<not> endsWith (toLowerCase (loc e)) ''.xml'' \<and>
                          \<not> endsWith (toLowerCase (loc e)) ''.xml.gz'') \<and>
         (isSitemapLoc (loc entry) \<longrightarrow>
            allEntries (addEntry st entry) = allEntries st \<and>
            queue (addEntry st entry) =
              (if loc entry \<in> set (visitedSitemaps st) then queue st else queue st @ [loc entry]))"
proof -
  from assms obtain final where
    t: "sitemapTraversal fuel newURL net be u agent apiKey = Some (Inr final)" and
    e: "entries = allEntries final"
    by (cases "sitemapTraversal fuel newURL net be u agent apiKey")
       (auto simp: fetchAllUrlsFromSitemaps_def map_sum_def split: sum.splits)
  from sitemapTraversal_inv[OF t] e
  have "\<forall>e\<in>set entries. \<not> isSitemapLoc (loc e)"
    by (simp add: traversal_inv_def leaves_only_def)
  then show ?thesis
    by (auto simp: isSitemapLoc_def addEntry_def)
qed

theorem sitemap_entries_are_leaves_witness:
  "fetchAllUrlsFromSitemaps (Suc (Suc (Suc 0))) simple_URL index_site index_backend
     ''https://example.com'' example_agent ''secret'' =
     Some (Inr [\<lparr>loc = ''https://example.com/a'', lastmod = [], changefreq = [], priority = 0.5\<rparr>,
                \<lparr>loc = ''https://example.com/b'', lastmod = [], changefreq = [], priority = 0.5\<rparr>]) \<and>
   \<not> endsWith (toLowerCase ''https://example.com/a'') ''.xml'' \<and>
   \<not> endsWith (toLowerCase ''https://example.com/b'') ''.xml.gz''"
proof -
  have robots: "sitemapSeeds ''User-agent: *\<newline>Sitemap: https://example.com/index.xml''
      = [''https://example.com/index.xml'']"
    by (simp add: sitemapSeeds_def toLowerCase_def lower_char_def trim_def is_space_def Let_def)
  have run: "fetchAllUrlsFromSitemaps (Suc (Suc (Suc 0))) simple_URL index_site index_backend
     ''https://example.com'' example_agent ''secret'' =
     Some (Inr [\<lparr>loc = ''https://example.com/a'', lastmod = [], changefreq = [], priority = 0.5\<rparr>,
                \<lparr>loc = ''https://example.com/b'', lastmod = [], changefreq = [], priority = 0.5\<rparr>])"
    by (simp add: fetchAllUrlsFromSitemaps_def sitemapTraversal_def simple_URL_def sitemapStart_def
        fetchWithProxy_cases attempt_def index_site_def robots processSitemap_def
        parseSitemapWithAI_def requestSitemapEntries_def example_agent_def index_backend_def
        extractJson_def substring_def as_array_def sitemapEntryOf_def item_at_def or_default_def
        addEntry_def isSitemapLoc_def endsWith_def toLowerCase_def lower_char_def Let_def)
  show ?thesis
    using sitemap_entries_are_leaves [OF run] run
    by simp
qed








section \<open>Claim about analyzeRobotsTxt and analyzeAdsTxt\<close>

text \<open>
  Claim C7. With a non-empty API key, when the fetch of the well-known file fails,
  analyzeRobotsTxt returns \<open>{rules: [], sitemaps: []}\<close> and analyzeAdsTxt returns
  \<open>{records: [], malformedLines: []}\<close>; neither throws, whatever the agent and the model
  backend. The same holds when the URL of the site cannot be parsed, since the origin is
  computed inside the same \<open>try\<close>.
\<close>

theorem absent_file_gives_empty_analysis:
  assumes "apiKey \<noteq> []"
  shows "(newURL u None = Some parsed \<and> fetchWithProxy tr (origin parsed @ ''/robots.txt'') = Inl e \<longrightarrow>
            analyzeRobotsTxt newURL tr be u agent apiKey = Inr \<lparr>rules = [], sitemaps = []\<rparr>) \<and>
         (newURL u None = Some parsed \<and> fetchWithProxy tr (origin parsed @ ''/ads.txt'') = Inl e' \<longrightarrow>
            analyzeAdsTxt newURL tr be u agent apiKey = Inr \<lparr>records = [], malformedLines = []\<rparr>) \<and>
         (newURL u None = None \<longrightarrow>
            analyzeRobotsTxt newURL tr be u agent apiKey = Inr \<lparr>rules = [], sitemaps = []\<rparr> \<and>
            analyzeAdsTxt newURL tr be u agent apiKey = Inr \<lparr>records = [], malformedLines = []\<rparr>)"
  using assms
  by (simp add: analyzeRobotsTxt_def analyzeAdsTxt_def fetchWellKnown_def)

theorem absent_file_gives_empty_analysis_witness:
  "analyzeRobotsTxt simple_URL (offline 0) rate_limited_backend ''https://example.com/shop''
     example_agent ''secret'' = Inr \<lparr>rules = [], sitemaps = []\<rparr> \<and>
   analyzeAdsTxt simple_URL (offline 0) rate_limited_backend ''https://example.com/shop''
     example_agent ''secret'' = Inr \<lparr>records = [], malformedLines = []\<rparr>"
  using absent_file_gives_empty_analysis [of "''secret''" simple_URL "''https://example.com/shop''"
      "\<lparr>protocol = ''https:'', hostname = ''example.com'', href = ''https://example.com/shop'',
        origin = ''https://example.com''\<rparr>" "offline 0"
      "final_attempt_error ''https://example.com/robots.txt'' 3" rate_limited_backend example_agent
      "final_attempt_error ''https://example.com/ads.txt'' 3"]
  by (simp add: simple_URL_def Let_def fetchWithProxy_offline)

section \<open>The crawl terminates\<close>

lemma visitLink_effect:
  "\<exists>news. crawl_queue (visitLink br baseUrl pageUrl depth st h) = crawl_queue st @ news \<and>
     (\<forall>e\<in>set news. snd e = Suc depth) \<and>
     next_index (visitLink br baseUrl pageUrl depth st h) = next_index st \<and>
     expanded (visitLink br baseUrl pageUrl depth st h) = expanded st"
  by (auto simp: visitLink_def Let_def split: option.splits)

lemma visitLinks_effect:
  "\<exists>news. crawl_queue (foldl (visitLink br baseUrl pageUrl depth) st hs) = crawl_queue st @ news \<and>
     (\<forall>e\<in>set news. snd e = Suc depth) \<and>
     next_index (foldl (visitLink br baseUrl pageUrl depth) st hs) = next_index st \<and>
     expanded (foldl (visitLink br baseUrl pageUrl depth) st hs) = expanded st"
proof (induction hs arbitrary: st)
  case Nil
  then show ?case by simp
next
  case (Cons h hs)
  from visitLink_effect[of br baseUrl pageUrl depth st h] obtain n1 where
    1: "crawl_queue (visitLink br baseUrl pageUrl depth st h) = crawl_queue st @ n1"
       "\<forall>e\<in>set n1. snd e = Suc depth"
       "next_index (visitLink br baseUrl pageUrl depth st h) = next_index st"
       "expanded (visitLink br baseUrl pageUrl depth st h) = expanded st"
    by blast
  from Cons.IH[of "visitLink br baseUrl pageUrl depth st h"] obtain n2 where
    2: "crawl_queue (foldl (visitLink br baseUrl pageUrl depth) (visitLink br baseUrl pageUrl depth st h) hs)
          = crawl_queue (visitLink br baseUrl pageUrl depth st h) @ n2"
       "\<forall>e\<in>set n2. snd e = Suc depth"
       "next_index (foldl (visitLink br baseUrl pageUrl depth) (visitLink br baseUrl pageUrl depth st h) hs)
          = next_index (visitLink br baseUrl pageUrl depth st h)"
       "expanded (foldl (visitLink br baseUrl pageUrl depth) (visitLink br baseUrl pageUrl depth st h) hs)
          = expanded (visitLink br baseUrl pageUrl depth st h)"
    by blast
  show ?case
    using 1 2 by (intro exI[of _ "n1 @ n2"]) auto
qed

lemma crawlStep_effect:
  assumes "next_index st < length (crawl_queue st)"
  shows "\<exists>news. crawl_queue (crawlStep br net baseUrl crawlDepth st) = crawl_queue st @ news \<and>
     (\<forall>e\<in>set news. snd e = Suc (snd (crawl_queue st ! next_index st)) \<and>
                     int (snd (crawl_queue st ! next_index st)) < crawlDepth) \<and>
     next_index (crawlStep br net baseUrl crawlDepth st) = Suc (next_index st) \<and>
     expanded (crawlStep br net baseUrl crawlDepth st) =
       (if int (snd (crawl_queue st ! next_index st)) \<ge> crawlDepth then expanded st
        else expanded st @ [crawl_queue st ! next_index st])"
proof -
  obtain pageUrl depth where e: "crawl_queue st ! next_index st = (pageUrl, depth)"
    by (cases "crawl_queue st ! next_index st")
  show ?thesis
  proof (cases "int depth \<ge> crawlDepth")
    case True
    with e show ?thesis
      by (intro exI[of _ "[]"]) (simp add: crawlStep_def)
  next
    case False
    show ?thesis
    proof (cases "fetchWithProxy (net (next_index st)) pageUrl")
      case (Inl m)
      with e False show ?thesis
        by (intro exI[of _ "[]"]) (simp add: crawlStep_def)
    next
      case (Inr document)
      let ?st2 = "st\<lparr>next_index := Suc (next_index st), expanded := expanded st @ [(pageUrl, depth)]\<rparr>"
      from visitLinks_effect[of br baseUrl pageUrl depth ?st2 "anchor_hrefs br document"]
      obtain news where
        n: "crawl_queue (foldl (visitLink br baseUrl pageUrl depth) ?st2 (anchor_hrefs br document))
              = crawl_queue ?st2 @ news"
           "\<forall>e\<in>set news. snd e = Suc depth"
           "next_index (foldl (visitLink br baseUrl pageUrl depth) ?st2 (anchor_hrefs br document))
              = next_index ?st2"
           "expanded (foldl (visitLink br baseUrl pageUrl depth) ?st2 (anchor_hrefs br document))
              = expanded ?st2"
        by blast
      with e False Inr show ?thesis
        by (intro exI[of _ news]) (simp add: crawlStep_def)
    qed
  qed
qed

lemma crawlStep_decreases:
  assumes "next_index st < length (crawl_queue st)"
  shows "(pending_ranks crawlDepth (crawlStep br net baseUrl crawlDepth st), pending_ranks crawlDepth st)
           \<in> mult less_than"
proof -
  let ?i = "next_index st" and ?q = "crawl_queue st"
  from crawlStep_effect[OF assms, of br net baseUrl crawlDepth] obtain news where
    q: "crawl_queue (crawlStep br net baseUrl crawlDepth st) = ?q @ news" and
    d: "\<forall>e\<in>set news. snd e = Suc (snd (?q ! ?i)) \<and> int (snd (?q ! ?i)) < crawlDepth" and
    i: "next_index (crawlStep br net baseUrl crawlDepth st) = Suc ?i"
    by blast
  have old: "pending_ranks crawlDepth st =
      mset (map (rank crawlDepth) (drop (Suc ?i) ?q)) + {#rank crawlDepth (?q ! ?i)#}"
    using assms by (simp add: pending_ranks_def Cons_nth_drop_Suc[symmetric])
  have new: "pending_ranks crawlDepth (crawlStep br net baseUrl crawlDepth st) =
      mset (map (rank crawlDepth) (drop (Suc ?i) ?q)) + mset (map (rank crawlDepth) news)"
    using assms by (simp add: pending_ranks_def q i)
  have "\<forall>k\<in>#mset (map (rank crawlDepth) news). \<exists>j\<in>#{#rank crawlDepth (?q ! ?i)#}. (k, j) \<in> less_than"
    using d by (auto simp: rank_def)
  then show ?thesis
    unfolding old new by (intro one_step_implies_mult) auto
qed

termination crawlLoop
proof (relation "inv_image (mult less_than) (\<lambda>(br, net, baseUrl, crawlDepth, st). pending_ranks crawlDepth st)")
  show "wf (inv_image (mult less_than) (\<lambda>(br, net, baseUrl, crawlDepth, st). pending_ranks crawlDepth st))"
    by (intro wf_inv_image wf_mult wf_less_than)
next
  fix br :: browser and net :: "nat \<Rightarrow> transport" and baseUrl :: URL and crawlDepth :: int and st :: crawl_state
  assume "next_index st < length (crawl_queue st)"
  then show "((br, net, baseUrl, crawlDepth, crawlStep br net baseUrl crawlDepth st), (br, net, baseUrl, crawlDepth, st))
      \<in> inv_image (mult less_than) (\<lambda>(br, net, baseUrl, crawlDepth, st). pending_ranks crawlDepth st)"
    using crawlStep_decreases by simp
qed

declare crawlLoop.simps [simp del]

section \<open>The crawl: auxiliary facts\<close>

lemma crawlLoop_step:
  "next_index st < length (crawl_queue st) \<Longrightarrow>
   crawlLoop br net baseUrl crawlDepth st =
     crawlLoop br net baseUrl crawlDepth (crawlStep br net baseUrl crawlDepth st)"
  by (subst crawlLoop.simps) simp

lemma crawlLoop_done:
  "\<not> next_index st < length (crawl_queue st) \<Longrightarrow> crawlLoop br net baseUrl crawlDepth st = st"
  by (subst crawlLoop.simps) simp

lemma visitLink_inv:
  assumes "stable_hostnames br" and "int depth < crawlDepth"
    and "crawl_inv br (hostname baseUrl) crawlDepth st"
  shows "crawl_inv br (hostname baseUrl) crawlDepth (visitLink br baseUrl pageUrl depth st h)"
proof (cases "new_URL br h (Some pageUrl)")
  case None
  with assms(3) show ?thesis by (simp add: visitLink_def)
next
  case (Some urlObject)
  with assms(1) have host: "hostname_of br (strip_fragment (href urlObject)) = Some (hostname urlObject)"
    unfolding stable_hostnames_def by blast
  from assms(2,3) Some host show ?thesis
    by (auto simp: visitLink_def crawl_inv_def set_add_def Let_def)
qed

lemma visitLinks_inv:
  assumes "stable_hostnames br" and "int depth < crawlDepth"
  shows "crawl_inv br (hostname baseUrl) crawlDepth st \<Longrightarrow>
         crawl_inv br (hostname baseUrl) crawlDepth (foldl (visitLink br baseUrl pageUrl depth) st hs)"
proof (induction hs arbitrary: st)
  case Nil
  then show ?case by simp
next
  case (Cons h hs)
  from visitLink_inv[OF assms Cons.prems]
  have "crawl_inv br (hostname baseUrl) crawlDepth (visitLink br baseUrl pageUrl depth st h)" .
  from Cons.IH[OF this] show ?case by simp
qed

lemma crawlStep_inv:
  assumes "stable_hostnames br" and "next_index st < length (crawl_queue st)"
    and "crawl_inv br (hostname baseUrl) crawlDepth st"
  shows "crawl_inv br (hostname baseUrl) crawlDepth (crawlStep br net baseUrl crawlDepth st)"
proof -
  obtain pageUrl depth where e: "crawl_queue st ! next_index st = (pageUrl, depth)"
    by (cases "crawl_queue st ! next_index st")
  let ?st1 = "st\<lparr>next_index := next_index st + 1\<rparr>"
  from assms(3) have inv1: "crawl_inv br (hostname baseUrl) crawlDepth ?st1"
    by (simp add: crawl_inv_def)
  show ?thesis
  proof (cases "int depth \<ge> crawlDepth")
    case True
    with e inv1 show ?thesis by (simp add: crawlStep_def)
  next
    case False
    let ?st2 = "?st1\<lparr>expanded := expanded ?st1 @ [(pageUrl, depth)]\<rparr>"
    from inv1 False have inv2: "crawl_inv br (hostname baseUrl) crawlDepth ?st2"
      by (simp add: crawl_inv_def)
    from False have less: "int depth < crawlDepth" by simp
    show ?thesis
    proof (cases "fetchWithProxy (net (next_index st)) pageUrl")
      case (Inl m)
      with e False inv2 show ?thesis by (simp add: crawlStep_def)
    next
      case (Inr document)
      from visitLinks_inv[OF assms(1) less inv2, of pageUrl "anchor_hrefs br document"]
      show ?thesis using e False Inr by (simp add: crawlStep_def)
    qed
  qed
qed

lemma crawlLoop_inv:
  "stable_hostnames br \<Longrightarrow> crawl_inv br (hostname baseUrl) crawlDepth st \<Longrightarrow>
   crawl_inv br (hostname baseUrl) crawlDepth (crawlLoop br net baseUrl crawlDepth st)"
proof (induction br net baseUrl crawlDepth st rule: crawlLoop.induct)
  case (1 br net baseUrl crawlDepth st)
  show ?case
  proof (cases "next_index st < length (crawl_queue st)")
    case True
    from crawlStep_inv[OF "1.prems"(1) True "1.prems"(2), of net]
    have "crawl_inv br (hostname baseUrl) crawlDepth (crawlStep br net baseUrl crawlDepth st)" .
    from "1.IH"[OF True "1.prems"(1) this] True show ?thesis
      by (simp add: crawlLoop_step)
  next
    case False
    with "1.prems" show ?thesis by (simp add: crawlLoop_done)
  qed
qed

lemma crawlStart_inv:
  "new_URL br startUrl None = Some baseUrl \<Longrightarrow>
   crawl_inv br (hostname baseUrl) crawlDepth (crawlStart startUrl)"
  by (simp add: crawl_inv_def crawlStart_def hostname_of_def)

lemma startsWith_append: "startsWith s p \<Longrightarrow> \<exists>rest. s = p @ rest"
  by (induction s p rule: startsWith.induct) auto

lemma takeWhile_takeWhile_weaker:
  "(\<And>c. P c \<Longrightarrow> Q c) \<Longrightarrow> takeWhile P (takeWhile Q s) = takeWhile P s"
  by (induction s) auto

lemma stable_example_browser: "stable_hostnames example_browser"
proof -
  have "simple_URL (strip_fragment (href u)) None = 
          Some \<lparr>protocol = ''https:'', hostname = hostname u, href = strip_fragment (href u),
                origin = ''https://'' @ hostname u\<rparr>"
    if "simple_URL h b = Some u" for h b u
  proof -
    from that have sw: "startsWith h ''https://''" and
      u: "u = \<lparr>protocol = ''https:'',
               hostname = takeWhile (\<lambda>c. c \<noteq> CHR ''/'' \<and> c \<noteq> CHR ''#'') (drop 8 h),
               href = h,
               origin = ''https://'' @ takeWhile (\<lambda>c. c \<noteq> CHR ''/'' \<and> c \<noteq> CHR ''#'') (drop 8 h)\<rparr>"
      by (auto simp: simple_URL_def Let_def split: if_splits)
    from startsWith_append[OF sw] obtain rest where h: "h = ''https://'' @ rest" by blast
    have t: "takeWhile (\<lambda>c. c \<noteq> CHR ''/'' \<and> c \<noteq> CHR ''#'') (takeWhile (\<lambda>c. c \<noteq> CHR ''#'') rest) =
             takeWhile (\<lambda>c. c \<noteq> CHR ''/'' \<and> c \<noteq> CHR ''#'') rest"
      by (rule takeWhile_takeWhile_weaker) simp
    show ?thesis
      by (simp add: u h simple_URL_def strip_fragment_def Let_def t)
  qed
  then show ?thesis
    by (auto simp: stable_hostnames_def hostname_of_def example_browser_def)
qed

section \<open>Claim about discoverUrlsToCrawl\<close>

text \<open>
  Claim C2. The crawl always ends. For every start URL that parses and every maximal
  depth, every URL that discoverUrlsToCrawl returns has the host name of the start URL
  (given that the URL parser reads its own output, as the URL Standard's does); the only
  pages the loop fetches are pages of a depth below the maximal depth, so a page at or
  beyond it is never expanded; and every URL returned stands in the queue with a depth, the
  number of expansion steps that reached it from the seed, that is at most the maximal
  depth (0 for the seed).
\<close>

theorem crawl_same_host_within_depth:
  assumes "stable_hostnames br"
    and "crawl br net startUrl maxDepth = Inr final"
  shows "discoverUrlsToCrawl br net startUrl maxDepth = Inr (foundUrls final) \<and>
         (\<forall>found\<in>set (foundUrls final). hostname_of br found = hostname_of br startUrl) \<and>
         (\<forall>e\<in>set (expanded final). int (snd e) < maxDepth) \<and>
         (\<forall>found\<in>set (foundUrls final).
            \<exists>d. (found, d) \<in> set (crawl_queue final) \<and> (d = 0 \<or> int d \<le> maxDepth))"
proof -
  from assms(2) obtain baseUrl where
    b: "new_URL br startUrl None = Some baseUrl" and
    f: "final = crawlLoop br net baseUrl maxDepth (crawlStart startUrl)"
    by (auto simp: crawl_def split: option.splits)
  from crawlLoop_inv[OF assms(1) crawlStart_inv[OF b], of maxDepth net]
  have inv: "crawl_inv br (hostname baseUrl) maxDepth final"
    by (simp add: f)
  have 1: "discoverUrlsToCrawl br net startUrl maxDepth = Inr (foundUrls final)"
    by (simp add: discoverUrlsToCrawl_def assms(2))
  have 2: "\<forall>found\<in>set (foundUrls final). hostname_of br found = hostname_of br startUrl"
    using inv b by (simp add: crawl_inv_def hostname_of_def)
  have 3: "\<forall>e\<in>set (expanded final). int (snd e) < maxDepth"
    using inv by (simp add: crawl_inv_def)
  have 4: "\<forall>found\<in>set (foundUrls final).
            \<exists>d. (found, d) \<in> set (crawl_queue final) \<and> (d = 0 \<or> int d \<le> maxDepth)"
  proof
    fix found
    assume "found \<in> set (foundUrls final)"
    with inv have "found \<in> fst ` set (crawl_queue final)"
      by (simp add: crawl_inv_def)
    then obtain d where m: "(found, d) \<in> set (crawl_queue final)"
      by auto
    with inv have "d = 0 \<or> int d \<le> maxDepth"
      by (auto simp: crawl_inv_def)
    with m show "\<exists>d. (found, d) \<in> set (crawl_queue final) \<and> (d = 0 \<or> int d \<le> maxDepth)"
      by blast
  qed
  from 1 2 3 4 show ?thesis by blast
qed

theorem crawl_same_host_within_depth_witness:
  "crawl example_browser example_site ''https://example.com'' 1 =
     Inr \<lparr>crawl_queue = [(''https://example.com'', 0), (''https://example.com/a'', 1),
                          (''https://example.com/b'', 1)],
          next_index = 3,
          visited = [''https://example.com'', ''https://example.com/a'', ''https://example.com/b''],
          foundUrls = [''https://example.com'', ''https://example.com/a'', ''https://example.com/b''],
          expanded = [(''https://example.com'', 0)]\<rparr> \<and>
   discoverUrlsToCrawl example_browser example_site ''https://example.com'' 1 =
     Inr [''https://example.com'', ''https://example.com/a'', ''https://example.com/b''] \<and>
   hostname_of example_browser ''https://example.com/b'' = hostname_of example_browser ''https://example.com''"
proof -
  have fetch: "fetchWithProxy (example_site k) u = (if u = ''https://example.com'' then Inr ''home'' else Inr ''leaf'')" for k u
    by (simp add: fetchWithProxy_cases attempt_def example_site_def)
  have run: "crawl example_browser example_site ''https://example.com'' 1 =
     Inr \<lparr>crawl_queue = [(''https://example.com'', 0), (''https://example.com/a'', 1),
                          (''https://example.com/b'', 1)],
          next_index = 3,
          visited = [''https://example.com'', ''https://example.com/a'', ''https://example.com/b''],
          foundUrls = [''https://example.com'', ''https://example.com/a'', ''https://example.com/b''],
          expanded = [(''https://example.com'', 0)]\<rparr>"
    by (simp add: crawl_def crawlStart_def crawlLoop_step crawlLoop_done crawlStep_def fetch
        visitLink_def strip_fragment_def set_add_def example_browser_def simple_URL_def Let_def)
  show ?thesis
    using crawl_same_host_within_depth [OF stable_example_browser run] run
    by simp
qed

end
